theory Spec2Isabelle
  imports Main "HOL-Library.AList"
begin

section \<open>JavaScript values\<close>

text \<open>
  The explorer keeps decoded JSON everywhere: API responses, captured parameters, the
  entries of an imported file. A decoded value is \<open>null\<close>, a boolean, a number, a string,
  an array or an object. Strings are lists of characters read as UTF-16 code units, and
  an object is an association list in the order in which its fields were written.
  Two more values occur while the program runs: \<open>JUndefined\<close>, JavaScript's
  \<open>undefined\<close>, and \<open>JBuiltin\<close>, a function or an object of the engine itself (\<open>Array\<close>,
  \<open>Object.prototype\<close>, \<open>Array.prototype.map\<close>, ...), which a read through a
  prototype can give. No decoded JSON holds either of them.

  A number is a double: \<open>NaN\<close>, an infinity (\<open>Infinite True\<close> is the negative one) or a
  finite number, kept as the shortest decimal \<open>c * 10 ^ e\<close> that denotes it, with its
  sign (\<open>True\<close> for negative) and with \<open>c\<close> not divisible by ten unless it is zero.
  This is the decimal that \<open>String(n)\<close> prints.
\<close>

datatype jsnum =
    NaN
  | Infinite bool
  | Finite bool nat int

datatype jsval =
    JUndefined
  | JNull
  | JBool bool
  | JNum jsnum
  | JStr string
  | JArr "jsval list"
  | JObj "(string \<times> jsval) list"
  | JBuiltin string

text \<open>Truthiness, as \<open>if (v)\<close>, \<open>!v\<close> and \<open>v || w\<close> read a value.\<close>

fun nonzero :: "jsnum \<Rightarrow> bool" where
  "nonzero NaN = False"
| "nonzero (Infinite s) = True"
| "nonzero (Finite s c e) = (c \<noteq> 0)"

fun truthy :: "jsval \<Rightarrow> bool" where
  "truthy JUndefined = False"
| "truthy JNull = False"
| "truthy (JBool b) = b"
| "truthy (JNum n) = nonzero n"
| "truthy (JStr s) = (s \<noteq> [])"
| "truthy (JArr xs) = True"
| "truthy (JObj fs) = True"
| "truthy (JBuiltin b) = True"

text \<open>\<open>v === undefined || v === null\<close>.\<close>

fun nullish :: "jsval \<Rightarrow> bool" where
  "nullish JUndefined = True"
| "nullish JNull = True"
| "nullish v = False"

subsection \<open>Decimal numerals\<close>

definition is_digit :: "char \<Rightarrow> bool" where
  "is_digit c = (c \<in> set ''0123456789'')"

definition digit_val :: "char \<Rightarrow> nat" where
  "digit_val c = of_char c - 48"

definition digit_char :: "nat \<Rightarrow> char" where
  "digit_char d =
     (if d = 0 then CHR ''0'' else if d = 1 then CHR ''1'' else if d = 2 then CHR ''2''
      else if d = 3 then CHR ''3'' else if d = 4 then CHR ''4'' else if d = 5 then CHR ''5''
      else if d = 6 then CHR ''6'' else if d = 7 then CHR ''7'' else if d = 8 then CHR ''8''
      else CHR ''9'')"

text \<open>The value of a digit string, most significant digit first.\<close>

definition dec_value :: "string \<Rightarrow> nat" where
  "dec_value ds = foldl (\<lambda>acc c. 10 * acc + digit_val c) 0 ds"

text \<open>The decimal digits of a natural number, without leading zeros.\<close>

fun show_nat :: "nat \<Rightarrow> string" where
  "show_nat n = (if n < 10 then [digit_char n] else show_nat (n div 10) @ [digit_char (n mod 10)])"

declare show_nat.simps [simp del]

subsection \<open>Numbers as text, and integers as numbers\<close>

text \<open>
  \<open>String(n)\<close> for a number (\<open>Number::toString\<close> of ECMAScript, radix ten). With \<open>k\<close> the
  number of digits of the coefficient and \<open>n = k + e\<close> the position of the decimal point:
  plain digits when \<open>-5 \<le> n \<le> 21\<close>, exponent notation otherwise. Both zeros print as
  \<open>0\<close>.
\<close>

definition digits_to_string :: "string \<Rightarrow> int \<Rightarrow> string" where
  "digits_to_string ds e =
     (let k = int (length ds); n = k + e
      in if - 5 \<le> n \<and> n \<le> 21 then
           (if k \<le> n then ds @ replicate (nat (n - k)) CHR ''0''
            else if 0 < n then take (nat n) ds @ ''.'' @ drop (nat n) ds
            else ''0.'' @ replicate (nat (- n)) CHR ''0'' @ ds)
         else
           (let x = n - 1;
                exponent = (if x < 0 then ''-'' else ''+'') @ show_nat (nat \<bar>x\<bar>)
            in if k = 1 then ds @ ''e'' @ exponent
               else take 1 ds @ ''.'' @ drop 1 ds @ ''e'' @ exponent))"

fun number_to_string :: "jsnum \<Rightarrow> string" where
  "number_to_string NaN = ''NaN''"
| "number_to_string (Infinite s) = (if s then ''-Infinity'' else ''Infinity'')"
| "number_to_string (Finite s c e) =
     (if c = 0 then ''0''
      else (if s then ''-'' else []) @ digits_to_string (show_nat c) e)"

text \<open>
  The double nearest to a natural number, ties to the even significand; \<open>None\<close> is the
  overflow to \<open>Infinity\<close>. A double has 53 significant bits and is below \<open>2 ^ 1024\<close>.
\<close>

fun bit_length :: "nat \<Rightarrow> nat" where
  "bit_length n = (if n = 0 then 0 else Suc (bit_length (n div 2)))"

declare bit_length.simps [simp del]

definition round_to_double :: "nat \<Rightarrow> nat option" where
  "round_to_double n =
     (if bit_length n \<le> 53 then Some n
      else
        (let shift = bit_length n - 53;
             q = n div 2 ^ shift;
             r = n mod 2 ^ shift;
             half = 2 ^ (shift - 1);
             q' = (if half < r \<or> (r = half \<and> odd q) then q + 1 else q)
         in if 2 ^ 1024 \<le> q' * 2 ^ shift then None else Some (q' * 2 ^ shift)))"

text \<open>
  The shortest decimal of a double \<open>x\<close> that is a natural number: the least number \<open>k\<close>
  of digits for which some \<open>c * 10 ^ e\<close> with a \<open>k\<close>-digit \<open>c\<close> rounds to \<open>x\<close>, and of
  the two candidates around \<open>x\<close> the nearer one (the even one on a tie). Seventeen
  digits always suffice. \<open>strip_zeros\<close> moves trailing zeros of the coefficient into the
  exponent.
\<close>

definition shortest_at :: "nat \<Rightarrow> nat \<Rightarrow> (nat \<times> int) option" where
  "shortest_at x k =
     (let d = length (show_nat x);
          p = 10 ^ (d - k);
          lo = x div p;
          hi = lo + 1;
          ok_lo = (round_to_double (lo * p) = Some x);
          ok_hi = (round_to_double (hi * p) = Some x);
          nearer_lo = (x - lo * p < hi * p - x \<or> (x - lo * p = hi * p - x \<and> even lo))
      in if ok_lo \<and> (\<not> ok_hi \<or> nearer_lo) then Some (lo, int (d - k))
         else if ok_hi then Some (hi, int (d - k))
         else None)"

definition shortest_decimal :: "nat \<Rightarrow> nat \<times> int" where
  "shortest_decimal x =
     (case List.map_filter (shortest_at x) [1..<18] of
        r # _ \<Rightarrow> r
      | [] \<Rightarrow> (x, 0))"

function strip_zeros :: "nat \<Rightarrow> int \<Rightarrow> nat \<times> int" where
  "strip_zeros c e =
     (if c \<noteq> 0 \<and> c mod 10 = 0 then strip_zeros (c div 10) (e + 1) else (c, e))"
  by pat_completeness auto
termination
  by (relation "measure (\<lambda>(c, e). c)") auto

declare strip_zeros.simps [simp del]

text \<open>
  A natural number and an integer as a number of the language: exact when it has at most
  53 bits, rounded otherwise.
\<close>

definition num_of_nat :: "nat \<Rightarrow> jsnum" where
  "num_of_nat n =
     (if bit_length n \<le> 53 then (case strip_zeros n 0 of (c, e) \<Rightarrow> Finite False c e)
      else
        (case round_to_double n of
           None \<Rightarrow> Infinite False
         | Some x \<Rightarrow>
             (case shortest_decimal x of (c, e) \<Rightarrow>
                (case strip_zeros c e of (c', e') \<Rightarrow> Finite False c' e'))))"

fun negate :: "jsnum \<Rightarrow> jsnum" where
  "negate NaN = NaN"
| "negate (Infinite s) = Infinite (\<not> s)"
| "negate (Finite s c e) = Finite (\<not> s) c e"

definition num_of_int :: "int \<Rightarrow> jsnum" where
  "num_of_int i = (if i < 0 then negate (num_of_nat (nat (- i))) else num_of_nat (nat i))"

subsection \<open>\<open>parseInt\<close>\<close>

text \<open>
  \<open>parseInt(s)\<close> without a radix: leading white space is skipped, one sign is read, a
  \<open>0x\<close> or \<open>0X\<close> prefix switches to base 16, and the longest run of digits of the base
  is the value; no digit at all gives \<open>NaN\<close>, here \<open>None\<close>. \<open>parseInt\<close> below is the
  integer the digits denote. The number the call returns is the double nearest to it,
  \<open>num_of_int\<close> of it: the property read that uses the number as a key (\<open>num_key\<close>)
  applies the rounding. The rewriter compares the number with positions of
  \<open>apiSequence\<close>, which are below \<open>2 ^ 32\<close>; against such bounds the rounded number and
  the integer compare alike, and the rewriter uses the integer.
\<close>

definition is_space :: "char \<Rightarrow> bool" where
  "is_space c = (c \<in> {CHR '' '', CHR 0x09, CHR 0x0A, CHR 0x0B, CHR 0x0C, CHR 0x0D, CHR 0xA0})"

definition is_hex_digit :: "char \<Rightarrow> bool" where
  "is_hex_digit c = (c \<in> set ''0123456789abcdefABCDEF'')"

definition hex_val :: "char \<Rightarrow> nat" where
  "hex_val c = (if is_digit c then of_char c - 48
                else if c \<in> set ''abcdef'' then of_char c - 87
                else of_char c - 55)"

definition parse_digits :: "string \<Rightarrow> nat option" where
  "parse_digits s =
     (if take 2 s = ''0x'' \<or> take 2 s = ''0X'' then
        (let ds = takeWhile is_hex_digit (drop 2 s)
         in if ds = [] then None
            else Some (foldl (\<lambda>acc c. 16 * acc + hex_val c) 0 ds))
      else
        (let ds = takeWhile is_digit s
         in if ds = [] then None else Some (dec_value ds)))"

definition parseInt :: "string \<Rightarrow> int option" where
  "parseInt s =
     (let t = dropWhile is_space s
      in if take 1 t = ''-'' then map_option (\<lambda>n. - int n) (parse_digits (drop 1 t))
         else if take 1 t = ''+'' then map_option int (parse_digits (drop 1 t))
         else map_option int (parse_digits t))"

subsection \<open>String helpers\<close>

text \<open>\<open>s.split(c)\<close> for a one-character separator: never empty, \<open>''''\<close> splits to \<open>['''']\<close>.\<close>

fun split_on :: "char \<Rightarrow> string \<Rightarrow> string list" where
  "split_on c [] = [[]]"
| "split_on c (x # xs) =
     (if x = c then [] # split_on c xs
      else (case split_on c xs of
              p # ps \<Rightarrow> (x # p) # ps
            | [] \<Rightarrow> [[x]]))"

text \<open>\<open>s.replace(c, '''')\<close> with a string pattern: only the first occurrence goes.\<close>

fun remove_first :: "char \<Rightarrow> string \<Rightarrow> string" where
  "remove_first c [] = []"
| "remove_first c (x # xs) = (if x = c then xs else x # remove_first c xs)"

text \<open>\<open>s.includes(t)\<close> and \<open>s.startsWith(t)\<close>.\<close>

fun starts_with :: "string \<Rightarrow> string \<Rightarrow> bool" where
  "starts_with s [] = True"
| "starts_with [] (y # ys) = False"
| "starts_with (x # xs) (y # ys) = (x = y \<and> starts_with xs ys)"

fun includes_str :: "string \<Rightarrow> string \<Rightarrow> bool" where
  "includes_str [] t = (t = [])"
| "includes_str (x # xs) t = (starts_with (x # xs) t \<or> includes_str xs t)"

fun join_with :: "string \<Rightarrow> string list \<Rightarrow> string" where
  "join_with sep [] = []"
| "join_with sep [x] = x"
| "join_with sep (x # xs) = x @ sep @ join_with sep xs"

section \<open>Exceptions\<close>

text \<open>
  A function that can throw returns \<open>Inl\<close> of the error's message or \<open>Inr\<close> of its
  value. The text of a \<open>TypeError\<close> depends on the engine; the model has one.
\<close>

definition type_error :: string where
  "type_error = ''TypeError''"

definition bind_err :: "string + 'a \<Rightarrow> ('a \<Rightarrow> string + 'b) \<Rightarrow> string + 'b" where
  "bind_err x f = (case x of Inl e \<Rightarrow> Inl e | Inr v \<Rightarrow> f v)"

fun fold_err :: "('b \<Rightarrow> 'a \<Rightarrow> string + 'b) \<Rightarrow> 'b \<Rightarrow> 'a list \<Rightarrow> string + 'b" where
  "fold_err f acc [] = Inr acc"
| "fold_err f acc (x # xs) = bind_err (f acc x) (\<lambda>acc'. fold_err f acc' xs)"

fun map_err :: "('a \<Rightarrow> string + 'b) \<Rightarrow> 'a list \<Rightarrow> string + 'b list" where
  "map_err g [] = Inr []"
| "map_err g (x # xs) =
     bind_err (g x) (\<lambda>y. bind_err (map_err g xs) (\<lambda>ys. Inr (y # ys)))"

section \<open>Property reads\<close>

subsection \<open>Own properties\<close>

text \<open>
  The properties a value has of its own: an object its fields; an array \<open>length\<close> and
  its elements under their canonical index strings; a string \<open>length\<close> and its
  one-character substrings. Numbers, booleans and built-ins have none the model knows
  of. \<open>own_prop\<close> is \<open>v[k]\<close> restricted to them, \<open>undefined\<close> for any other key; the
  source's reads under the fixed names \<open>path\<close>, \<open>query\<close>, \<open>body\<close>, \<open>method\<close>,
  \<open>parameters\<close>, \<open>variableMappings\<close>, \<open>summary\<close>, \<open>description\<close>, \<open>tags\<close>, \<open>sequence\<close>,
  \<open>dataTransformations\<close>, \<open>fieldMappings\<close>, \<open>unifiedColumns\<close>, \<open>errors\<close>, \<open>message\<close> and
  \<open>length\<close> are such reads, since no prototype of the language defines a property of
  one of these names (and \<open>length\<close> is an own property wherever it exists).
\<close>

definition index_of_key :: "string \<Rightarrow> nat option" where
  "index_of_key k =
     (if k \<noteq> [] \<and> list_all is_digit k \<and> (k = ''0'' \<or> hd k \<noteq> CHR ''0'')
      then Some (dec_value k) else None)"

definition lookup :: "(string \<times> jsval) list \<Rightarrow> string \<Rightarrow> jsval" where
  "lookup fs k = (case map_of fs k of None \<Rightarrow> JUndefined | Some v \<Rightarrow> v)"

fun has_own :: "jsval \<Rightarrow> string \<Rightarrow> bool" where
  "has_own (JObj fs) k = (map_of fs k \<noteq> None)"
| "has_own (JArr xs) k =
     (k = ''length'' \<or> (case index_of_key k of Some n \<Rightarrow> n < length xs | None \<Rightarrow> False))"
| "has_own (JStr s) k =
     (k = ''length'' \<or> (case index_of_key k of Some n \<Rightarrow> n < length s | None \<Rightarrow> False))"
| "has_own v k = False"

fun own_prop :: "jsval \<Rightarrow> string \<Rightarrow> jsval" where
  "own_prop (JObj fs) k = lookup fs k"
| "own_prop (JArr xs) k =
     (if k = ''length'' then JNum (num_of_nat (length xs))
      else (case index_of_key k of
              Some n \<Rightarrow> (if n < length xs then xs ! n else JUndefined)
            | None \<Rightarrow> JUndefined))"
| "own_prop (JStr s) k =
     (if k = ''length'' then JNum (num_of_nat (length s))
      else (case index_of_key k of
              Some n \<Rightarrow> (if n < length s then JStr [s ! n] else JUndefined)
            | None \<Rightarrow> JUndefined))"
| "own_prop v k = JUndefined"

text \<open>\<open>v.k\<close> for one of the fixed names where the source does not test \<open>v\<close> first.\<close>

definition read_prop :: "jsval \<Rightarrow> string \<Rightarrow> string + jsval" where
  "read_prop v k = (if nullish v then Inl type_error else Inr (own_prop v k))"

text \<open>\<open>v?.k\<close> for one of the fixed names: \<open>undefined\<close> when \<open>v\<close> is \<open>null\<close> or \<open>undefined\<close>.\<close>

definition opt_chain :: "jsval \<Rightarrow> string \<Rightarrow> jsval" where
  "opt_chain v k = (if nullish v then JUndefined else own_prop v k)"

subsection \<open>The engine, and reads under names that come from the data\<close>

text \<open>
  Where the key of a read comes from the data (a part of a variable expression, the
  name of a path parameter), the read can leave the decoded value: \<open>v[k]\<close> for a key
  that \<open>v\<close> does not have of its own goes up the prototype chain, where \<open>constructor\<close>,
  \<open>toString\<close>, \<open>map\<close> and the like are found, and every read of a built-in is the
  engine's affair, including reads that throw (\<open>caller\<close> of a built-in function). What
  the prototypes hold depends on the engine and its version, so the model takes it as a
  parameter: \<open>inherited E v k\<close> is the outcome of \<open>v[k]\<close> when \<open>k\<close> is no own property of
  \<open>v\<close>, \<open>undefined\<close> for a name no prototype knows. \<open>builtin_text E b\<close> is \<open>String(b)\<close> for
  a built-in.
\<close>

record engine =
  inherited :: "jsval \<Rightarrow> string \<Rightarrow> string + jsval"
  builtin_text :: "string \<Rightarrow> string + string"

text \<open>\<open>v[k]\<close>: a \<open>TypeError\<close> on \<open>null\<close> and \<open>undefined\<close>, the own property, or the prototypes.\<close>

definition get_prop :: "engine \<Rightarrow> jsval \<Rightarrow> string \<Rightarrow> string + jsval" where
  "get_prop E v k =
     (if nullish v then Inl type_error
      else if has_own v k then Inr (own_prop v k)
      else inherited E v k)"

text \<open>\<open>v[n]\<close> for a number \<open>n\<close> that \<open>parseInt\<close> gave: the key is \<open>String(n)\<close>.\<close>

definition num_key :: "int option \<Rightarrow> string" where
  "num_key n = (case n of None \<Rightarrow> ''NaN'' | Some i \<Rightarrow> number_to_string (num_of_int i))"

text \<open>
  The engine of the examples. Its prototypes are empty: the names the examples read and
  do not find (\<open>project_gid\<close>, \<open>b\<close>, \<open>totalIterations\<close>) are properties of no prototype of
  a real engine either.
\<close>

definition bare_engine :: engine where
  "bare_engine =
     \<lparr>inherited = (\<lambda>v k. Inr JUndefined),
      builtin_text = (\<lambda>b. Inr ''function () { [native code] }'')\<rparr>"

section \<open>VariableResolver: \<open>resolveVariable\<close>\<close>

text \<open>
  \<open>sequenceResults\<close> is a \<open>Map\<close> from a step's runtime id to the decoded response of
  its last successful call; an association list read with \<open>lookup\<close> and written with
  \<open>AList.update\<close>. A \<open>Map\<close> has no prototype chain behind its keys.
\<close>

type_synonym store = "(string \<times> jsval) list"

text \<open>
  One round of the loop over \<open>pathParts\<close>: a part holding both brackets is read as
  \<open>name[index]\<close>, \<open>value[arrayName]?.[index]\<close>, any other part as a field name,
  \<open>value[part]\<close>. The destructuring of \<open>part.split('[')\<close> takes the first two pieces; a
  part with a \<open>[\<close> always has two.
\<close>

definition resolve_part :: "engine \<Rightarrow> jsval \<Rightarrow> string \<Rightarrow> string + jsval" where
  "resolve_part E v part =
     (if CHR ''['' \<in> set part \<and> CHR '']'' \<in> set part then
        (case split_on CHR ''['' part of
           arrayName # indexStr # _ \<Rightarrow>
             bind_err (get_prop E v arrayName) (\<lambda>a.
               if nullish a then Inr JUndefined
               else get_prop E a (num_key (parseInt (remove_first CHR '']'' indexStr))))
         | _ \<Rightarrow> Inl type_error)
      else get_prop E v part)"

text \<open>The loop: it returns \<open>null\<close> as soon as a value is \<open>undefined\<close> or \<open>null\<close>.\<close>

fun resolve_parts :: "engine \<Rightarrow> jsval \<Rightarrow> string list \<Rightarrow> string + jsval" where
  "resolve_parts E v [] = Inr v"
| "resolve_parts E v (part # parts) =
     bind_err (resolve_part E v part) (\<lambda>w.
       if nullish w then Inr JNull else resolve_parts E w parts)"

definition resolveVariable :: "engine \<Rightarrow> store \<Rightarrow> string \<Rightarrow> string + jsval" where
  "resolveVariable E sequenceResults variablePath =
     (case split_on CHR ''.'' variablePath of
        [] \<Rightarrow> Inr JNull
      | itemId # pathParts \<Rightarrow>
          (let result = lookup sequenceResults itemId
           in if \<not> truthy result then Inr JNull
              else resolve_parts E result pathParts))"

section \<open>The hand-walked access of a variable expression\<close>

text \<open>
  The expression grammar of the resolver: a step id followed by one or more segments,
  each a bare field name or \<open>name[index]\<close> with a decimal index. \<open>json_walk\<close> is the
  reading the specification gives an expression, a walk through the decoded structure:
  a bare segment reads a field of an object, an indexed segment reads a field and then
  an element, and the walk ends with \<open>null\<close> as soon as what it reads is absent or
  \<open>null\<close>. In the structure an object has its fields and an array its elements, and
  nothing else has anything: \<open>json_read\<close>. The index of an element is the number the
  digits denote, as \<open>a[12]\<close> written by hand.
\<close>

datatype segment = Field string | Index string string

fun render_seg :: "segment \<Rightarrow> string" where
  "render_seg (Field f) = f"
| "render_seg (Index f ds) = f @ ''['' @ ds @ '']''"

definition render_expr :: "string \<Rightarrow> segment list \<Rightarrow> string" where
  "render_expr stepId segs = stepId @ concat (map (\<lambda>s. CHR ''.'' # render_seg s) segs)"

fun valid_seg :: "segment \<Rightarrow> bool" where
  "valid_seg (Field f) = (CHR ''.'' \<notin> set f \<and> \<not> (CHR ''['' \<in> set f \<and> CHR '']'' \<in> set f))"
| "valid_seg (Index f ds) =
     (CHR ''.'' \<notin> set f \<and> CHR ''['' \<notin> set f \<and> ds \<noteq> [] \<and> list_all is_digit ds)"

fun json_read :: "jsval \<Rightarrow> string \<Rightarrow> jsval" where
  "json_read (JObj fs) k = lookup fs k"
| "json_read (JArr xs) k =
     (case index_of_key k of
        Some n \<Rightarrow> (if n < length xs then xs ! n else JUndefined)
      | None \<Rightarrow> JUndefined)"
| "json_read v k = JUndefined"

definition index_key :: "string \<Rightarrow> string" where
  "index_key ds = number_to_string (num_of_nat (dec_value ds))"

fun json_access :: "jsval \<Rightarrow> segment \<Rightarrow> jsval" where
  "json_access v (Field f) = json_read v f"
| "json_access v (Index f ds) =
     (let a = json_read v f
      in if nullish a then JUndefined else json_read a (index_key ds))"

fun json_walk :: "jsval \<Rightarrow> segment list \<Rightarrow> jsval" where
  "json_walk v [] = v"
| "json_walk v (s # ss) =
     (let w = json_access v s
      in if nullish w then JNull else json_walk w ss)"

text \<open>
  A read of the walk is plain when JavaScript's \<open>v[k]\<close> gives what the structure holds
  under \<open>k\<close>, and nothing where the structure holds nothing: the key names no built-in
  property of \<open>v\<close> (the \<open>length\<close> of an array or of a string, a character of a string, a
  property of a prototype). Nothing is read from \<open>null\<close> and \<open>undefined\<close>. A walk is
  plain when each of its reads is.
\<close>

definition plain_read :: "engine \<Rightarrow> jsval \<Rightarrow> string \<Rightarrow> bool" where
  "plain_read E v k = (nullish v \<or> get_prop E v k = Inr (json_read v k))"

fun plain_access :: "engine \<Rightarrow> jsval \<Rightarrow> segment \<Rightarrow> bool" where
  "plain_access E v (Field f) = plain_read E v f"
| "plain_access E v (Index f ds) =
     (plain_read E v f \<and> plain_read E (json_read v f) (index_key ds))"

fun plain_walk :: "engine \<Rightarrow> jsval \<Rightarrow> segment list \<Rightarrow> bool" where
  "plain_walk E v [] = True"
| "plain_walk E v (s # ss) = (plain_access E v s \<and> plain_walk E (json_access v s) ss)"

section \<open>Values as text\<close>

text \<open>
  \<open>String(v)\<close>, as a template literal, \<open>encodeURIComponent\<close> and
  \<open>URLSearchParams.append\<close> convert a value. An array joins the texts of its elements
  with commas, \<open>null\<close> and \<open>undefined\<close> elements as empty strings. An object is
  \<open>[object Object]\<close>, through \<open>Object.prototype.toString\<close>; but an object with a field
  of its own named \<open>toString\<close> has no text: the field is no function, and \<open>valueOf\<close>
  gives no primitive either, so the conversion throws a \<open>TypeError\<close>.
\<close>

fun to_string :: "engine \<Rightarrow> jsval \<Rightarrow> string + string"
  and element_texts :: "engine \<Rightarrow> jsval list \<Rightarrow> string + string list" where
  "to_string E JUndefined = Inr ''undefined''"
| "to_string E JNull = Inr ''null''"
| "to_string E (JBool b) = Inr (if b then ''true'' else ''false'')"
| "to_string E (JNum n) = Inr (number_to_string n)"
| "to_string E (JStr s) = Inr s"
| "to_string E (JArr xs) = bind_err (element_texts E xs) (\<lambda>ts. Inr (join_with '','' ts))"
| "to_string E (JObj fs) =
     (if map_of fs ''toString'' \<noteq> None then Inl type_error else Inr ''[object Object]'')"
| "to_string E (JBuiltin b) = builtin_text E b"
| "element_texts E [] = Inr []"
| "element_texts E (x # xs) =
     bind_err (if nullish x then Inr [] else to_string E x) (\<lambda>t.
     bind_err (element_texts E xs) (\<lambda>ts. Inr (t # ts)))"

section \<open>Inline placeholders: \<open>resolveVariablePlaceholder\<close>\<close>

text \<open>
  The pattern \<open>/\{\{([^}]+)\}\}/\<close> at the start of a string: two opening braces, the
  longest run of characters other than \<open>}\<close>, which must not be empty, and two closing
  braces right after it. A shorter run cannot match either, since the character after it
  is then not a closing brace.
\<close>

definition match_placeholder_at :: "string \<Rightarrow> string option" where
  "match_placeholder_at s =
     (if take 2 s = ''{{'' then
        (let run = takeWhile (\<lambda>c. c \<noteq> CHR ''}'') (drop 2 s);
             after = dropWhile (\<lambda>c. c \<noteq> CHR ''}'') (drop 2 s)
         in if run \<noteq> [] \<and> take 2 after = ''}}'' then Some run else None)
      else None)"

text \<open>\<open>value.match(...)\<close> without the \<open>g\<close> flag: the leftmost match, and its first group.\<close>

fun find_placeholder :: "string \<Rightarrow> string option" where
  "find_placeholder [] = None"
| "find_placeholder (c # cs) =
     (case match_placeholder_at (c # cs) of
        Some variablePath \<Rightarrow> Some variablePath
      | None \<Rightarrow> find_placeholder cs)"

text \<open>
  The resolved value is written to the console inside a template literal before it is
  returned, so a value without a text makes the function throw.
\<close>

definition resolveVariablePlaceholder :: "engine \<Rightarrow> store \<Rightarrow> string \<Rightarrow> string + jsval" where
  "resolveVariablePlaceholder E sequenceResults v =
     (case find_placeholder v of
        Some variablePath \<Rightarrow>
          bind_err (resolveVariable E sequenceResults variablePath) (\<lambda>resolvedValue.
          bind_err (to_string E resolvedValue) (\<lambda>logged. Inr resolvedValue))
      | None \<Rightarrow> Inr (JStr v))"

section \<open>TransformationEngine: \<open>flattenObject\<close>\<close>

subsection \<open>The own keys of a value, in order\<close>

text \<open>
  The keys \<open>Object.entries\<close>, \<open>Object.keys\<close>, the spread \<open>{...v}\<close> and a \<open>for (key in v)\<close>
  loop visit, each with \<open>v[key]\<close>: the fields of an object, the indices of an array or
  of a string, nothing for the other values. The keys that are array indices (canonical
  numerals below \<open>2^32 - 1\<close>, those whose successor has at most 32 bits) come first, in
  ascending order, the others follow in the order in which they were written. An object repeats no field name; should a list
  repeat one, its first binding counts. No prototype of the language has an enumerable
  property, so a \<open>for\<close>-\<open>in\<close> loop visits nothing else.
\<close>

definition is_array_index :: "string \<Rightarrow> bool" where
  "is_array_index k =
     (case index_of_key k of Some n \<Rightarrow> bit_length (n + 1) \<le> 32 | None \<Rightarrow> False)"

definition own_keys :: "(string \<times> jsval) list \<Rightarrow> string list" where
  "own_keys fs =
     (let ks = remdups (map fst fs)
      in sort_key dec_value (filter is_array_index ks) @ filter (\<lambda>k. \<not> is_array_index k) ks)"

fun own_entries :: "jsval \<Rightarrow> (string \<times> jsval) list" where
  "own_entries (JObj fs) = map (\<lambda>k. (k, lookup fs k)) (own_keys fs)"
| "own_entries (JArr xs) = zip (map show_nat [0..<length xs]) xs"
| "own_entries (JStr s) = zip (map show_nat [0..<length s]) (map (\<lambda>c. JStr [c]) s)"
| "own_entries v = []"

subsection \<open>The function\<close>









section \<open>What flattening is to produce\<close>










section \<open>The sequence\<close>

text \<open>
  An endpoint of the catalog has string fields; the endpoint an import makes up for an
  entry it cannot match copies \<open>method\<close>, \<open>path\<close> and the rest from the file as they
  are, so every field is a decoded value.
\<close>

record endpoint =
  ep_method :: jsval
  ep_path :: jsval
  ep_summary :: jsval
  ep_description :: jsval
  ep_tags :: jsval
  ep_operationId :: jsval
  ep_security :: jsval

text \<open>
  A step of \<open>apiSequence\<close>. \<open>parameters\<close> is the object \<open>{path, query, body}\<close> and
  \<open>variableMappings\<close> an object from parameter names to expressions; both can come from
  an imported file as they are. \<open>error\<close> is \<open>null\<close> (\<open>None\<close>) or the message of the
  failure; \<open>isImported\<close> is set on the steps made for unmatched entries only.
\<close>

record item =
  item_id :: string
  endpoint :: endpoint
  endpointIndex :: int
  parameters :: jsval
  variableMappings :: jsval
  executed :: bool
  result :: jsval
  error :: "string option"
  isImported :: bool

text \<open>
  The object literal of \<open>addToSequence\<close> and of the import: a step that has not run.
  The id is \<open>seq_\<close>, the time in milliseconds, \<open>_\<close> and nine random characters; the
  model takes it as an argument.
\<close>

definition new_item :: "string \<Rightarrow> endpoint \<Rightarrow> int \<Rightarrow> jsval \<Rightarrow> jsval \<Rightarrow> item" where
  "new_item i ep idx ps vms =
     \<lparr>item_id = i, endpoint = ep, endpointIndex = idx, parameters = ps,
      variableMappings = vms, executed = False, result = JNull, error = None,
      isImported = False\<rparr>"

text \<open>An endpoint as the catalog lists it.\<close>

definition catalog_endpoint :: "string \<Rightarrow> string \<Rightarrow> string \<Rightarrow> endpoint" where
  "catalog_endpoint m p s =
     \<lparr>ep_method = JStr m, ep_path = JStr p, ep_summary = JStr s, ep_description = JStr [],
      ep_tags = JArr [], ep_operationId = JStr [], ep_security = JArr [JStr ''oauth2'']\<rparr>"

text \<open>The empty parameter object \<open>{path: {}, query: {}, body: null}\<close>.\<close>

definition empty_parameters :: jsval where
  "empty_parameters = JObj [(''path'', JObj []), (''query'', JObj []), (''body'', JNull)]"

text \<open>\<open>xs.findIndex(p)\<close>, with \<open>None\<close> for \<open>-1\<close>.\<close>

fun find_index :: "('a \<Rightarrow> bool) \<Rightarrow> 'a list \<Rightarrow> nat option" where
  "find_index p [] = None"
| "find_index p (x # xs) =
     (if p x then Some 0 else map_option Suc (find_index p xs))"

section \<open>ReferenceRewriter\<close>

subsection \<open>The two patterns\<close>

definition is_word_char :: "char \<Rightarrow> bool" where
  "is_word_char c =
     (c \<in> set ''abcdefghijklmnopqrstuvwxyzABCDEFGHIJKLMNOPQRSTUVWXYZ0123456789_'')"

text \<open>The dot of a pattern matches every character but a line terminator.\<close>

definition is_line_terminator :: "char \<Rightarrow> bool" where
  "is_line_terminator c = (c = CHR 0x0A \<or> c = CHR 0x0D)"

text \<open>
  \<open>.*?\}\}\<close>: the lazy star takes one character at a time until two closing braces
  follow. The result is the text taken and what is left after the braces.
\<close>

fun lazy_until_close :: "string \<Rightarrow> (string \<times> string) option" where
  "lazy_until_close [] = None"
| "lazy_until_close (c # cs) =
     (if take 2 (c # cs) = ''}}'' then Some ([], drop 1 cs)
      else if is_line_terminator c then None
      else map_option (\<lambda>(p, rest). (c # p, rest)) (lazy_until_close cs))"

text \<open>
  \<open>/\{\{(seq_[a-zA-Z0-9_]+)(\..*?)\}\}/\<close> at the start of a string: the two groups and
  what is left after the match. The greedy run of word characters cannot give a
  character back, since the next one has to be the dot.
\<close>

definition match_runtime_ref :: "string \<Rightarrow> (string \<times> string \<times> string) option" where
  "match_runtime_ref s =
     (if take 6 s = ''{{seq_'' then
        (let w = takeWhile is_word_char (drop 6 s);
             a = dropWhile is_word_char (drop 6 s)
         in if w \<noteq> [] \<and> take 1 a = ''.'' then
              (case lazy_until_close (drop 1 a) of
                 Some (p, rest) \<Rightarrow> Some (''seq_'' @ w, ''.'' @ p, rest)
               | None \<Rightarrow> None)
            else None)
      else None)"

text \<open>\<open>/\{\{step(\d+)(\..*?)\}\}/\<close> at the start of a string.\<close>

definition match_step_ref :: "string \<Rightarrow> (string \<times> string \<times> string) option" where
  "match_step_ref s =
     (if take 6 s = ''{{step'' then
        (let ds = takeWhile is_digit (drop 6 s);
             a = dropWhile is_digit (drop 6 s)
         in if ds \<noteq> [] \<and> take 1 a = ''.'' then
              (case lazy_until_close (drop 1 a) of
                 Some (p, rest) \<Rightarrow> Some (ds, ''.'' @ p, rest)
               | None \<Rightarrow> None)
            else None)
      else None)"

text \<open>
  \<open>value.replace(pattern, callback)\<close> with the \<open>g\<close> flag: the string is scanned from
  the left, a match is replaced by what the callback returns and the scan goes on after
  it, any other character is copied. \<open>m\<close> gives, for a match at the start of its
  argument, the replacement and the rest. Both patterns match six characters or more, so
  the rest is always shorter; the test on the lengths only makes the definition total.
\<close>

function replace_all :: "(string \<Rightarrow> (string \<times> string) option) \<Rightarrow> string \<Rightarrow> string" where
  "replace_all m s =
     (case m s of
        Some (replacement, rest) \<Rightarrow>
          (if length rest < length s then replacement @ replace_all m rest
           else replacement @ rest)
      | None \<Rightarrow>
          (case s of
             [] \<Rightarrow> []
           | c # cs \<Rightarrow> c # replace_all m cs))"
  by pat_completeness auto
termination
  by (relation "measure (\<lambda>(m, s). length s)") auto

declare replace_all.simps [simp del]

subsection \<open>\<open>convertVariableToStepReference\<close> (toStable)\<close>

text \<open>\<open>sequenceId.match(/step(\d+)/)\<close>: the digits after the leftmost \<open>step\<close> that has some.\<close>

fun find_step_digits :: "string \<Rightarrow> string option" where
  "find_step_digits [] = None"
| "find_step_digits (c # cs) =
     (if take 4 (c # cs) = ''step'' \<and> takeWhile is_digit (drop 3 cs) \<noteq> []
      then Some (takeWhile is_digit (drop 3 cs))
      else find_step_digits cs)"

definition to_stable_callback :: "item list \<Rightarrow> nat \<Rightarrow> string \<Rightarrow> string \<Rightarrow> string" where
  "to_stable_callback apiSequence currentStepIndex sequenceId path =
     (case find_index (\<lambda>it. item_id it = sequenceId) apiSequence of
        Some stepIndex \<Rightarrow>
          (if stepIndex < currentStepIndex
           then ''{{step'' @ show_nat stepIndex @ path @ ''}}''
           else (case find_step_digits sequenceId of
                   Some ds \<Rightarrow> ''{{step'' @ ds @ path @ ''}}''
                 | None \<Rightarrow> ''{{'' @ sequenceId @ path @ ''}}''))
      | None \<Rightarrow>
          (case find_step_digits sequenceId of
             Some ds \<Rightarrow> ''{{step'' @ ds @ path @ ''}}''
           | None \<Rightarrow> ''{{'' @ sequenceId @ path @ ''}}''))"

definition convertVariableToStepReference :: "item list \<Rightarrow> string \<Rightarrow> nat \<Rightarrow> string" where
  "convertVariableToStepReference apiSequence v currentStepIndex =
     replace_all
       (\<lambda>s. case match_runtime_ref s of
               Some (sequenceId, path, rest) \<Rightarrow>
                 Some (to_stable_callback apiSequence currentStepIndex sequenceId path, rest)
             | None \<Rightarrow> None)
       v"

subsection \<open>\<open>convertStepReferenceToVariable\<close> (toRuntime)\<close>

definition to_runtime_callback :: "item list \<Rightarrow> nat \<Rightarrow> string \<Rightarrow> string \<Rightarrow> string" where
  "to_runtime_callback apiSequence currentStepIndex stepIndex path =
     (case parseInt stepIndex of
        Some stepNum \<Rightarrow>
          (if stepNum < int currentStepIndex \<and> stepNum < int (length apiSequence)
           then ''{{'' @ item_id (apiSequence ! nat stepNum) @ path @ ''}}''
           else ''{{step'' @ stepIndex @ path @ ''}}'')
      | None \<Rightarrow> ''{{step'' @ stepIndex @ path @ ''}}'')"

definition convertStepReferenceToVariable :: "item list \<Rightarrow> string \<Rightarrow> nat \<Rightarrow> string" where
  "convertStepReferenceToVariable apiSequence v currentStepIndex =
     replace_all
       (\<lambda>s. case match_step_ref s of
               Some (stepIndex, path, rest) \<Rightarrow>
                 Some (to_runtime_callback apiSequence currentStepIndex stepIndex path, rest)
             | None \<Rightarrow> None)
       v"

subsection \<open>Values with references to earlier steps\<close>

text \<open>
  The shape of a parameter value with references: literal text, then any number of
  references \<open>{{seq_w.p}}\<close>, each followed by literal text. \<open>w\<close> is the part of the
  runtime id after \<open>seq_\<close> and \<open>p\<close> the path after the first dot.
\<close>

type_synonym template = "string \<times> (string \<times> string \<times> string) list"

definition render_ref :: "string \<Rightarrow> string \<Rightarrow> string" where
  "render_ref w p = ''{{seq_'' @ w @ ''.'' @ p @ ''}}''"

fun render_template :: "template \<Rightarrow> string" where
  "render_template (lit0, refs) =
     lit0 @ concat (map (\<lambda>(w, p, lit). render_ref w p @ lit) refs)"

text \<open>
  A reference is well formed when the id is made of word characters and the path holds
  no closing brace and no line break; it is a backward reference of the step at position
  \<open>n\<close> when the id is that of a step at a smaller position. Literal text holds no two
  opening braces in a row.
\<close>

definition backward_ref :: "item list \<Rightarrow> nat \<Rightarrow> string \<Rightarrow> string \<Rightarrow> bool" where
  "backward_ref apiSequence n w p =
     (w \<noteq> [] \<and> list_all is_word_char w
      \<and> CHR ''}'' \<notin> set p \<and> \<not> list_ex is_line_terminator p
      \<and> (case find_index (\<lambda>it. item_id it = ''seq_'' @ w) apiSequence of
            Some i \<Rightarrow> i < n
          | None \<Rightarrow> False))"

fun backward_template :: "item list \<Rightarrow> nat \<Rightarrow> template \<Rightarrow> bool" where
  "backward_template apiSequence n (lit0, refs) =
     (\<not> includes_str lit0 ''{{''
      \<and> list_all (\<lambda>(w, p, lit). backward_ref apiSequence n w p \<and> \<not> includes_str lit ''{{'') refs)"

text \<open>The same value with every reference in its stable form \<open>{{step<i>.p}}\<close>.\<close>

definition position_of :: "item list \<Rightarrow> string \<Rightarrow> nat" where
  "position_of apiSequence w =
     (case find_index (\<lambda>it. item_id it = ''seq_'' @ w) apiSequence of
        Some i \<Rightarrow> i
      | None \<Rightarrow> 0)"

definition render_stable_ref :: "item list \<Rightarrow> string \<Rightarrow> string \<Rightarrow> string" where
  "render_stable_ref apiSequence w p =
     ''{{step'' @ show_nat (position_of apiSequence w) @ ''.'' @ p @ ''}}''"

fun render_stable :: "item list \<Rightarrow> template \<Rightarrow> string" where
  "render_stable apiSequence (lit0, refs) =
     lit0 @ concat (map (\<lambda>(w, p, lit). render_stable_ref apiSequence w p @ lit) refs)"

section \<open>Strings for the request\<close>

definition hex_upper :: "nat \<Rightarrow> char" where
  "hex_upper d = (''0123456789ABCDEF'' ! d)"

definition percent_byte :: "nat \<Rightarrow> string" where
  "percent_byte b = [CHR ''%'', hex_upper (b div 16), hex_upper (b mod 16)]"

text \<open>
  Percent-encoding of one code unit as UTF-8: one byte below 128, two bytes from 128 to
  255 (the model's characters end there).
\<close>

definition percent_encode :: "char \<Rightarrow> string" where
  "percent_encode c =
     (let n = (of_char c :: nat)
      in if n < 128 then percent_byte n
         else percent_byte (192 + n div 64) @ percent_byte (128 + n mod 64))"

definition is_alnum :: "char \<Rightarrow> bool" where
  "is_alnum c = (c \<in> set ''abcdefghijklmnopqrstuvwxyzABCDEFGHIJKLMNOPQRSTUVWXYZ0123456789'')"

definition encodeURIComponent :: "string \<Rightarrow> string" where
  "encodeURIComponent s =
     concat (map (\<lambda>c. if is_alnum c \<or> c \<in> set ''-_.!~*()'' \<or> c = CHR 0x27 then [c]
                       else percent_encode c) s)"

text \<open>\<open>URLSearchParams.toString()\<close>: the form encoding, with \<open>+\<close> for a space.\<close>

definition form_encode :: "string \<Rightarrow> string" where
  "form_encode s =
     concat (map (\<lambda>c. if is_alnum c \<or> c \<in> set ''*-._'' then [c]
                       else if c = CHR '' '' then ''+''
                       else percent_encode c) s)"

definition search_params_to_string :: "(string \<times> string) list \<Rightarrow> string" where
  "search_params_to_string ps =
     join_with ''&'' (map (\<lambda>(k, v). form_encode k @ ''='' @ form_encode v) ps)"

text \<open>
  \<open>s.replace(pat, rep)\<close> for a string pattern: the first occurrence is replaced. The
  replacement texts of the source come out of \<open>encodeURIComponent\<close>, which leaves no \<open>$\<close>
  in them, so none of the replacement patterns (\<open>$&\<close> and the like) is in play.
\<close>

fun replace_first :: "string \<Rightarrow> string \<Rightarrow> string \<Rightarrow> string" where
  "replace_first pat rep [] = (if pat = [] then rep else [])"
| "replace_first pat rep (c # cs) =
     (if starts_with (c # cs) pat then rep @ drop (length pat) (c # cs)
      else c # replace_first pat rep cs)"

text \<open>
  \<open>path.match(/{([^}]+)}/g)\<close> and the \<open>slice(1, -1)\<close> of every match: the names
  between braces, from the left. A match is an opening brace, the longest run of
  characters other than \<open>}\<close>, not empty, and a closing brace.
\<close>

definition match_brace_at :: "string \<Rightarrow> (string \<times> string) option" where
  "match_brace_at s =
     (if take 1 s = ''{'' then
        (let run = takeWhile (\<lambda>c. c \<noteq> CHR ''}'') (drop 1 s);
             after = dropWhile (\<lambda>c. c \<noteq> CHR ''}'') (drop 1 s)
         in if run \<noteq> [] \<and> take 1 after = ''}'' then Some (run, drop 1 after) else None)
      else None)"

function path_param_names :: "string \<Rightarrow> string list" where
  "path_param_names s =
     (case match_brace_at s of
        Some (name, rest) \<Rightarrow>
          (if length rest < length s then name # path_param_names rest else [name])
      | None \<Rightarrow>
          (case s of
             [] \<Rightarrow> []
           | c # cs \<Rightarrow> path_param_names cs))"
  by pat_completeness auto
termination
  by (relation "measure length") auto

declare path_param_names.simps [simp del]


text \<open>\<open>extractPathParameters(path)\<close>: \<open>path.match\<close> exists on strings only.\<close>

definition extractPathParameters :: "jsval \<Rightarrow> string + string list" where
  "extractPathParameters p =
     (case p of JStr s \<Rightarrow> Inr (path_param_names s) | _ \<Rightarrow> Inl type_error)"

fun is_string :: "jsval \<Rightarrow> bool" where
  "is_string (JStr s) = True"
| "is_string v = False"

section \<open>SequenceExecutor\<close>

subsection \<open>The session and its collaborators\<close>

record request =
  req_method :: jsval
  req_url :: string
  req_headers :: "(string \<times> string) list"
  req_body :: jsval

text \<open>
  What \<open>await fetch(url, options)\<close> followed by \<open>await response.json()\<close> comes to: a
  status with the decoded body, or an exception (the network failed, the body is not
  JSON) with its message. The collaborator is a function of the request and of the
  number of calls made before it.
\<close>

datatype http_outcome = Response nat jsval | Threw string

type_synonym fetch = "nat \<Rightarrow> request \<Rightarrow> http_outcome"

text \<open>
  The fields of the explorer the executor and the import use. \<open>calls\<close> is not a field
  of the class: it records the requests handed to \<open>fetch\<close>, in order.
\<close>

record explorer =
  endpoints :: "endpoint list"
  personalAccessToken :: string
  baseUrl :: string
  apiSequence :: "item list"
  sequenceResults :: store
  fieldMappings :: jsval
  unifiedColumns :: jsval
  calls :: "request list"

subsection \<open>\<open>renderSequence\<close>\<close>

text \<open>
  \<open>renderSequence\<close> writes the HTML of the sequence panel from templates over every
  step. It changes no field of the model, but it can throw, and its callers do not all
  catch. For every step it calls \<open>renderParameterSummary\<close>, which takes
  \<open>Object.entries\<close> of \<open>item.parameters.path\<close> and of \<open>item.parameters.query\<close>, and
  \<open>renderVariableMappings\<close>, which calls \<open>extractPathParameters(item.endpoint.path)\<close>: a
  step without parameters, without one of the two objects, or with an endpoint path that
  is no string makes it throw a \<open>TypeError\<close>. What else the templates and the page do
  (the texts of the values they print, the elements of the document) is the parameter
  \<open>R\<close>: \<open>R st\<close> is the message of the exception they throw in the state \<open>st\<close>, if any.
  With an empty sequence the function only writes a fixed text.
\<close>

type_synonym renderer = "explorer \<Rightarrow> string option"

definition unrenderable :: "item \<Rightarrow> bool" where
  "unrenderable it =
     (nullish (parameters it)
      \<or> nullish (own_prop (parameters it) ''path'')
      \<or> nullish (own_prop (parameters it) ''query'')
      \<or> \<not> is_string (ep_path (endpoint it)))"

definition renderSequence :: "renderer \<Rightarrow> explorer \<Rightarrow> string option" where
  "renderSequence R st =
     (if apiSequence st = [] then None
      else if list_ex unrenderable (apiSequence st) then Some type_error
      else R st)"

text \<open>The page of the examples: its templates throw nothing.\<close>

definition quiet_page :: renderer where
  "quiet_page st = None"

subsection \<open>Building the request of a step\<close>

text \<open>\<open>this.resolveVariable(item.variableMappings[param])\<close>: \<open>split\<close> exists on strings only.\<close>

definition resolve_mapping :: "engine \<Rightarrow> store \<Rightarrow> jsval \<Rightarrow> string + jsval" where
  "resolve_mapping E sr m =
     (case m of JStr s \<Rightarrow> resolveVariable E sr s | _ \<Rightarrow> Inl type_error)"

text \<open>The test before \<open>resolveVariablePlaceholder\<close> in the loop over the path parameters.\<close>

definition resolve_inline :: "engine \<Rightarrow> store \<Rightarrow> jsval \<Rightarrow> string + jsval" where
  "resolve_inline E sr v =
     (case v of
        JStr s \<Rightarrow>
          (if s \<noteq> [] \<and> includes_str s ''{{'' \<and> includes_str s ''}}''
           then resolveVariablePlaceholder E sr s else Inr v)
      | _ \<Rightarrow> Inr v)"

text \<open>
  One round of \<open>pathParams.forEach\<close>: the url before and after. The parameter's name
  is the key of the two reads.
\<close>

definition substitute_path_param :: "engine \<Rightarrow> store \<Rightarrow> item \<Rightarrow> string \<Rightarrow> string \<Rightarrow> string + string" where
  "substitute_path_param E sr it url param =
     bind_err (read_prop (parameters it) ''path'') (\<lambda>pathObj.
     bind_err (get_prop E pathObj param) (\<lambda>literal.
     bind_err (get_prop E (variableMappings it) param) (\<lambda>mapping.
     bind_err (if truthy mapping then resolve_mapping E sr mapping else Inr literal) (\<lambda>v.
     bind_err (resolve_inline E sr v) (\<lambda>v'.
       if truthy v' then
         bind_err (to_string E v') (\<lambda>text.
           Inr (replace_first (''{'' @ param @ ''}'') (encodeURIComponent text) url))
       else Inr url)))))"

text \<open>
  \<open>buildQueryParameters\<close> during a sequence run (\<open>currentSequenceItem\<close> is the step):
  the truthy query parameters, the inline placeholder resolved, a \<open>null\<close> resolution
  left out, and \<open>opt_pretty=true\<close> last. \<open>Object.entries\<close> throws on \<open>null\<close> and
  \<open>undefined\<close>, and \<open>append\<close> converts the value to a string.
\<close>

definition query_pair :: "engine \<Rightarrow> store \<Rightarrow> string \<times> jsval \<Rightarrow> string + (string \<times> string) list" where
  "query_pair E sr kv =
     (let key = fst kv; v = snd kv
      in if truthy v then
           (case v of
              JStr s \<Rightarrow>
                (if includes_str s ''{{'' \<and> includes_str s ''}}'' then
                   bind_err (resolveVariablePlaceholder E sr s) (\<lambda>resolvedValue.
                     if resolvedValue \<noteq> JNull then
                       bind_err (to_string E resolvedValue) (\<lambda>text. Inr [(key, text)])
                     else Inr [])
                 else Inr [(key, s)])
            | _ \<Rightarrow> bind_err (to_string E v) (\<lambda>text. Inr [(key, text)]))
         else Inr [])"

definition buildQueryParameters :: "engine \<Rightarrow> store \<Rightarrow> item \<Rightarrow> string + (string \<times> string) list" where
  "buildQueryParameters E sr it =
     bind_err (read_prop (parameters it) ''query'') (\<lambda>q.
       if nullish q then Inl type_error
       else bind_err (map_err (query_pair E sr) (own_entries q)) (\<lambda>pairs.
              Inr (concat pairs @ [(''opt_pretty'', ''true'')])))"

text \<open>The part of \<open>executeSequenceItem\<close> from the url to the options of \<open>fetch\<close>.\<close>

definition build_request :: "engine \<Rightarrow> explorer \<Rightarrow> item \<Rightarrow> string + request" where
  "build_request E st it =
     bind_err (to_string E (ep_path (endpoint it))) (\<lambda>pathText.
     bind_err (extractPathParameters (ep_path (endpoint it))) (\<lambda>pathParams.
     bind_err (fold_err (substitute_path_param E (sequenceResults st) it)
                 (baseUrl st @ pathText) pathParams) (\<lambda>url.
     bind_err (buildQueryParameters E (sequenceResults st) it) (\<lambda>queryParams.
     bind_err (read_prop (parameters it) ''body'') (\<lambda>body.
       (let qs = search_params_to_string queryParams;
            url' = (if qs \<noteq> [] then url @ ''?'' @ qs else url);
            headers = [(''Authorization'', ''Bearer '' @ personalAccessToken st),
                       (''Accept'', ''application/json'')];
            with_body = (truthy body
                         \<and> ep_method (endpoint it) \<in> {JStr ''POST'', JStr ''PUT'', JStr ''PATCH''})
        in Inr \<lparr>req_method = ep_method (endpoint it), req_url = url',
                req_headers = (if with_body
                               then headers @ [(''Content-Type'', ''application/json'')]
                               else headers),
                req_body = (if with_body then body else JUndefined)\<rparr>))))))"

subsection \<open>\<open>executeSequenceItem\<close>\<close>

text \<open>
  The message for a response that is not \<open>ok\<close>:
  \<open>status: responseData.errors?.[0]?.message || 'API call failed'\<close>. Reading \<open>errors\<close>
  of a \<open>null\<close> body throws, and so does a message without a text.
\<close>

definition api_error_message :: "engine \<Rightarrow> nat \<Rightarrow> jsval \<Rightarrow> string + string" where
  "api_error_message E status responseData =
     bind_err (read_prop responseData ''errors'') (\<lambda>errors.
       (let m = opt_chain (opt_chain errors ''0'') ''message''
        in if truthy m then
             bind_err (to_string E m) (\<lambda>text. Inr (show_nat status @ '': '' @ text))
           else Inr (show_nat status @ '': API call failed'')))"

definition network_error :: "item \<Rightarrow> string \<Rightarrow> item" where
  "network_error it msg = it\<lparr>error := Some (''Network Error: '' @ msg), executed := True\<rparr>"

text \<open>
  The step with the given id is the first one of the sequence with it. Its state is
  reset, the request is built and sent, and the outcome is written to the step and, for
  a success, to \<open>sequenceResults\<close>. Every exception of the \<open>try\<close> block ends as a
  \<open>Network Error\<close> of the step. \<open>run_item\<close> is the function up to the end of that block.
\<close>

definition run_item :: "engine \<Rightarrow> fetch \<Rightarrow> explorer \<Rightarrow> nat \<Rightarrow> explorer" where
  "run_item E f st j =
     (let it = (apiSequence st ! j)\<lparr>executed := False, result := JNull, error := None\<rparr>
      in case build_request E st it of
           Inl msg \<Rightarrow> st\<lparr>apiSequence := (apiSequence st)[j := network_error it msg]\<rparr>
         | Inr req \<Rightarrow>
             (let st1 = st\<lparr>calls := calls st @ [req]\<rparr>
              in case f (length (calls st)) req of
                   Threw msg \<Rightarrow>
                     st1\<lparr>apiSequence := (apiSequence st)[j := network_error it msg]\<rparr>
                 | Response status responseData \<Rightarrow>
                     (if 200 \<le> status \<and> status \<le> 299 then
                        st1\<lparr>apiSequence :=
                              (apiSequence st)[j := it\<lparr>result := responseData, executed := True\<rparr>],
                            sequenceResults :=
                              AList.update (item_id it) responseData (sequenceResults st)\<rparr>
                      else
                        (case api_error_message E status responseData of
                           Inl msg \<Rightarrow>
                             st1\<lparr>apiSequence := (apiSequence st)[j := network_error it msg]\<rparr>
                         | Inr e \<Rightarrow>
                             st1\<lparr>apiSequence :=
                                   (apiSequence st)[j := it\<lparr>error := Some e, executed := True\<rparr>]\<rparr>))))"

text \<open>
  After the \<open>try\<close> block the panel is rendered, outside of any \<open>catch\<close>: the function
  returns the new state and the exception that leaves it, if one does. Without a step
  of the given id it returns at once.
\<close>

definition executeSequenceItem :: "engine \<Rightarrow> fetch \<Rightarrow> renderer \<Rightarrow> explorer \<Rightarrow> string \<Rightarrow> explorer \<times> string option" where
  "executeSequenceItem E f R st itemId =
     (case find_index (\<lambda>it. item_id it = itemId) (apiSequence st) of
        None \<Rightarrow> (st, None)
      | Some j \<Rightarrow> (let st' = run_item E f st j in (st', renderSequence R st')))"

subsection \<open>\<open>executeSequence\<close>\<close>

text \<open>\<open>if (item.error)\<close>: a message that is not empty.\<close>

definition has_error :: "item \<Rightarrow> bool" where
  "has_error it = (case error it of None \<Rightarrow> False | Some e \<Rightarrow> e \<noteq> [])"

text \<open>
  One round of the loop \<open>for (let i = 0; i < this.apiSequence.length; i++)\<close>. Before
  the \<open>try\<close> the round writes \<open>Executing step ...: ${item.endpoint.method}
  ${item.endpoint.path}\<close> to the console, which throws when the method or the path of
  the step has no text; then it executes the step through its id. \<open>run_step\<close> returns
  the state after the round and the exception that ended it, if any: the one of the log
  line, which leaves \<open>executeSequence\<close>, or the one that came out of
  \<open>executeSequenceItem\<close>, which the \<open>catch\<close> of the loop receives.
\<close>

definition announce :: "engine \<Rightarrow> item \<Rightarrow> string + string" where
  "announce E it =
     bind_err (to_string E (ep_method (endpoint it))) (\<lambda>m.
     bind_err (to_string E (ep_path (endpoint it))) (\<lambda>p. Inr (m @ '' '' @ p)))"

definition run_step :: "engine \<Rightarrow> fetch \<Rightarrow> renderer \<Rightarrow> explorer \<Rightarrow> nat \<Rightarrow> explorer \<times> string option" where
  "run_step E f R st i =
     (case announce E (apiSequence st ! i) of
        Inl e \<Rightarrow> (st, Some e)
      | Inr line \<Rightarrow> executeSequenceItem E f R st (item_id (apiSequence st ! i)))"

text \<open>
  The loop from index \<open>i\<close> on: it ends when an exception ended the round or when the
  step at \<open>i\<close> then holds an error (\<open>break\<close>). The pause between two steps and the
  progress written to the button of the page are not modelled (the page has the button);
  what follows the loop changes no field of the model.
\<close>

function execute_from :: "engine \<Rightarrow> fetch \<Rightarrow> renderer \<Rightarrow> explorer \<Rightarrow> nat \<Rightarrow> explorer" where
  "execute_from E f R st i =
     (if i < length (apiSequence st) then
        (case run_step E f R st i of
           (st', thrown) \<Rightarrow>
             if thrown \<noteq> None then st'
             else if has_error (apiSequence st' ! i) then st'
             else execute_from E f R st' (i + 1))
      else st)"
  by pat_completeness auto
termination
proof (relation "measure (\<lambda>(E, f, R, st, i). length (apiSequence st) - i)")
  show "wf (measure (\<lambda>(E, f, R, st, i). length (apiSequence st) - i))" by simp
next
  fix E :: engine and f :: fetch and R :: renderer and st :: explorer and i :: nat
    and st' :: explorer and thrown :: "string option"
  assume i: "i < length (apiSequence st)"
     and p: "(st', thrown) = run_step E f R st i"
  have "length (apiSequence (fst (run_step E f R st i))) = length (apiSequence st)"
    unfolding run_step_def executeSequenceItem_def run_item_def
    by (simp add: Let_def split: option.splits sum.splits http_outcome.splits)
  then have "length (apiSequence st') = length (apiSequence st)"
    using p by (metis fst_conv)
  then show "((E, f, R, st', i + 1), (E, f, R, st, i))
             \<in> measure (\<lambda>(E, f, R, st, i). length (apiSequence st) - i)"
    using i by simp
qed

declare execute_from.simps [simp del]

text \<open>
  \<open>executeSequence\<close>: nothing runs for an empty sequence or without a token (an alert
  is shown).
\<close>

definition executeSequence :: "engine \<Rightarrow> fetch \<Rightarrow> renderer \<Rightarrow> explorer \<Rightarrow> explorer" where
  "executeSequence E f R st =
     (if apiSequence st = [] then st
      else if personalAccessToken st = [] then st
      else execute_from E f R st 0)"

text \<open>
  The rounds for the positions \<open>0\<close> to \<open>j - 1\<close> one after the other, and nothing else:
  what a run that reaches position \<open>j\<close> has done. \<open>step_outcome j\<close> is the round for the
  step at position \<open>j\<close> in such a run: the state after it and the exception that ended
  it, if any. A round stops the run when an exception ended it or the step holds an
  error after it.
\<close>

fun run_steps :: "engine \<Rightarrow> fetch \<Rightarrow> renderer \<Rightarrow> explorer \<Rightarrow> nat \<Rightarrow> explorer" where
  "run_steps E f R st 0 = st"
| "run_steps E f R st (Suc j) = fst (run_step E f R (run_steps E f R st j) j)"

definition step_outcome :: "engine \<Rightarrow> fetch \<Rightarrow> renderer \<Rightarrow> explorer \<Rightarrow> nat \<Rightarrow> explorer \<times> string option" where
  "step_outcome E f R st j = run_step E f R (run_steps E f R st j) j"

definition step_thrown :: "engine \<Rightarrow> fetch \<Rightarrow> renderer \<Rightarrow> explorer \<Rightarrow> nat \<Rightarrow> bool" where
  "step_thrown E f R st j = (snd (step_outcome E f R st j) \<noteq> None)"

definition step_failed :: "engine \<Rightarrow> fetch \<Rightarrow> renderer \<Rightarrow> explorer \<Rightarrow> nat \<Rightarrow> bool" where
  "step_failed E f R st j = has_error (apiSequence (fst (step_outcome E f R st j)) ! j)"
section \<open>Import: \<open>loadSequenceFromData\<close>\<close>

subsection \<open>JavaScript operators of the import\<close>

text \<open>
  \<open>a === b\<close> between a value of the catalog and a value of the file: equal primitives,
  where \<open>NaN\<close> equals nothing and the two zeros are equal. Two arrays or two objects
  are never the same object here.
\<close>

definition num_equal :: "jsnum \<Rightarrow> jsnum \<Rightarrow> bool" where
  "num_equal m n = (m \<noteq> NaN \<and> n \<noteq> NaN \<and> (m = n \<or> (\<not> nonzero m \<and> \<not> nonzero n)))"

fun strict_eq :: "jsval \<Rightarrow> jsval \<Rightarrow> bool" where
  "strict_eq (JArr xs) b = False"
| "strict_eq (JObj fs) b = False"
| "strict_eq (JNum m) b = (case b of JNum n \<Rightarrow> num_equal m n | _ \<Rightarrow> False)"
| "strict_eq a b = (a = b)"

text \<open>\<open>a || b\<close> and the spread \<open>{...v}\<close>.\<close>

definition or_default :: "jsval \<Rightarrow> jsval \<Rightarrow> jsval" where
  "or_default a b = (if truthy a then a else b)"

definition spread :: "jsval \<Rightarrow> (string \<times> jsval) list" where
  "spread v = own_entries v"

definition ends_with :: "string \<Rightarrow> string \<Rightarrow> bool" where
  "ends_with s t = starts_with (rev s) (rev t)"

text \<open>
  \<open>v > 0\<close> and the operands of \<open>v + w\<close> go through \<open>ToPrimitive\<close>: an object becomes
  its text, and has none with a field of its own named \<open>toString\<close>. For \<open>v > 0\<close> a
  string is then read as a number (\<open>StringToNumber\<close>): white space is trimmed, and the
  rest is \<open>Infinity\<close>, a binary, octal or hexadecimal literal, or a decimal literal with
  an optional sign, fraction and exponent; anything else is \<open>NaN\<close>, which exceeds
  nothing. A positive literal denotes a number above zero unless it is rounded to zero,
  as every value up to \<open>2 ^ -1075\<close> is.
\<close>

definition to_primitive :: "engine \<Rightarrow> jsval \<Rightarrow> string + jsval" where
  "to_primitive E v =
     (case v of
        JObj fs \<Rightarrow> bind_err (to_string E v) (\<lambda>text. Inr (JStr text))
      | JArr xs \<Rightarrow> bind_err (to_string E v) (\<lambda>text. Inr (JStr text))
      | JBuiltin b \<Rightarrow> bind_err (to_string E v) (\<lambda>text. Inr (JStr text))
      | _ \<Rightarrow> Inr v)"

definition trim_space :: "string \<Rightarrow> string" where
  "trim_space s = rev (dropWhile is_space (rev (dropWhile is_space s)))"

definition radix_positive :: "(char \<Rightarrow> bool) \<Rightarrow> string \<Rightarrow> bool" where
  "radix_positive is_digit_of ds =
     (ds \<noteq> [] \<and> list_all is_digit_of ds \<and> list_ex (\<lambda>c. c \<noteq> CHR ''0'') ds)"

definition decimal_positive :: "string \<Rightarrow> bool" where
  "decimal_positive t =
     (let whole = takeWhile is_digit t;
          r1 = dropWhile is_digit t;
          fraction = (if take 1 r1 = ''.'' then takeWhile is_digit (drop 1 r1) else []);
          r2 = (if take 1 r1 = ''.'' then dropWhile is_digit (drop 1 r1) else r1);
          signed = drop 1 r2;
          exp_digits = (if take 1 signed = ''-'' \<or> take 1 signed = ''+'' then drop 1 signed
                        else signed);
          valid = ((whole \<noteq> [] \<or> fraction \<noteq> [])
                   \<and> (r2 = [] \<or> ((take 1 r2 = ''e'' \<or> take 1 r2 = ''E'')
                                  \<and> exp_digits \<noteq> [] \<and> list_all is_digit exp_digits)));
          m = dec_value (whole @ fraction);
          written = (if r2 = [] then 0
                     else if take 1 signed = ''-'' then - int (dec_value exp_digits)
                     else int (dec_value exp_digits));
          ex = written - int (length fraction)
      in valid \<and> m \<noteq> 0 \<and> (0 \<le> ex \<or> 10 ^ nat (- ex) < m * 2 ^ 1075))"

definition string_positive :: "string \<Rightarrow> bool" where
  "string_positive s =
     (let t = trim_space s
      in if t = ''Infinity'' \<or> t = ''+Infinity'' then True
         else if take 2 t = ''0x'' \<or> take 2 t = ''0X'' then radix_positive is_hex_digit (drop 2 t)
         else if take 2 t = ''0o'' \<or> take 2 t = ''0O'' then
           radix_positive (\<lambda>c. c \<in> set ''01234567'') (drop 2 t)
         else if take 2 t = ''0b'' \<or> take 2 t = ''0B'' then
           radix_positive (\<lambda>c. c \<in> set ''01'') (drop 2 t)
         else if take 1 t = ''+'' then decimal_positive (drop 1 t)
         else decimal_positive t)"

fun positive :: "jsnum \<Rightarrow> bool" where
  "positive NaN = False"
| "positive (Infinite s) = (\<not> s)"
| "positive (Finite s c e) = (\<not> s \<and> c \<noteq> 0)"

definition exceeds_zero :: "engine \<Rightarrow> jsval \<Rightarrow> string + bool" where
  "exceeds_zero E v =
     bind_err (to_primitive E v) (\<lambda>p.
       Inr (case p of
              JNum n \<Rightarrow> positive n
            | JStr s \<Rightarrow> string_positive s
            | JBool b \<Rightarrow> b
            | _ \<Rightarrow> False))"

subsection \<open>Converting the references of an entry\<close>

text \<open>\<open>convertStepReferenceToVariable\<close> on any value: only a string is rewritten.\<close>

definition convert_value :: "item list \<Rightarrow> nat \<Rightarrow> jsval \<Rightarrow> jsval" where
  "convert_value its stepIndex v =
     (case v of JStr s \<Rightarrow> JStr (convertStepReferenceToVariable its s stepIndex) | _ \<Rightarrow> v)"

definition convert_truthy :: "item list \<Rightarrow> nat \<Rightarrow> string \<times> jsval \<Rightarrow> string \<times> jsval" where
  "convert_truthy its stepIndex kv =
     (fst kv, if truthy (snd kv) then convert_value its stepIndex (snd kv) else snd kv)"

definition convertParametersForImport :: "item list \<Rightarrow> jsval \<Rightarrow> nat \<Rightarrow> jsval" where
  "convertParametersForImport its ps stepIndex =
     (let body = own_prop ps ''body''
      in JObj [(''path'', JObj (map (convert_truthy its stepIndex) (spread (own_prop ps ''path'')))),
               (''query'', JObj (map (convert_truthy its stepIndex) (spread (own_prop ps ''query'')))),
               (''body'', if truthy body then convert_value its stepIndex body else body)])"

text \<open>
  One mapping of \<open>convertVariableMappingsForImport\<close>: the expression is wrapped in
  braces for the conversion and unwrapped after it. \<open>startsWith\<close> exists on strings
  only; any other truthy value throws.
\<close>

definition convert_mapping :: "item list \<Rightarrow> nat \<Rightarrow> string \<times> jsval \<Rightarrow> string + (string \<times> jsval)" where
  "convert_mapping its stepIndex kv =
     (if truthy (snd kv) then
        (case snd kv of
           JStr originalValue \<Rightarrow>
             (let wrappedValue = (if starts_with originalValue ''{{'' then originalValue
                                  else ''{{'' @ originalValue @ ''}}'');
                  converted = convertStepReferenceToVariable its wrappedValue stepIndex
              in Inr (fst kv,
                      JStr (if starts_with converted ''{{'' \<and> ends_with converted ''}}''
                            then butlast (butlast (drop 2 converted))
                            else converted)))
         | _ \<Rightarrow> Inl type_error)
      else Inr kv)"

definition convertVariableMappingsForImport :: "item list \<Rightarrow> jsval \<Rightarrow> nat \<Rightarrow> string + jsval" where
  "convertVariableMappingsForImport its vms stepIndex =
     bind_err (map_err (convert_mapping its stepIndex) (spread vms)) (\<lambda>kvs. Inr (JObj kvs))"

subsection \<open>One entry of the file\<close>

text \<open>
  The state of the loop over \<open>importData.sequence\<close>: the sequence built so far,
  \<open>loadedCount\<close> and \<open>skippedCount\<close>.
\<close>

type_synonym import_state = "item list \<times> nat \<times> nat"

definition matching_endpoint :: "endpoint list \<Rightarrow> jsval \<Rightarrow> endpoint option" where
  "matching_endpoint eps importItem =
     find (\<lambda>ep. strict_eq (ep_method ep) (own_prop importItem ''method'')
               \<and> strict_eq (ep_path ep) (own_prop importItem ''path'')) eps"

definition placeholder_endpoint :: "nat \<Rightarrow> jsval \<Rightarrow> endpoint" where
  "placeholder_endpoint index importItem =
     \<lparr>ep_method = own_prop importItem ''method'',
      ep_path = own_prop importItem ''path'',
      ep_summary = or_default (own_prop importItem ''summary'') (JStr ''Imported endpoint''),
      ep_description = or_default (own_prop importItem ''description'')
         (JStr ''This endpoint was imported but not found in current API spec''),
      ep_tags = or_default (own_prop importItem ''tags'') (JArr [JStr ''imported'']),
      ep_operationId = JStr (''imported_'' @ show_nat index),
      ep_security = JArr [JStr ''oauth2'']\<rparr>"

definition placeholder_item :: "string \<Rightarrow> nat \<Rightarrow> jsval \<Rightarrow> item" where
  "placeholder_item i index importItem =
     (new_item i (placeholder_endpoint index importItem) (- 1)
        (or_default (own_prop importItem ''parameters'') empty_parameters)
        (or_default (own_prop importItem ''variableMappings'') (JObj [])))
     \<lparr>isImported := True\<rparr>"

text \<open>
  The body of the loop with its \<open>try\<close> and \<open>catch\<close>. Reading \<open>importItem.method\<close>
  throws for a \<open>null\<close> entry. For an entry that matches an endpoint the step is pushed
  first and its parameters and mappings are converted after that, against the sequence
  that already holds it; \<open>new_id\<close> gives the id made for the entry.
\<close>

definition import_entry :: "endpoint list \<Rightarrow> (nat \<Rightarrow> string) \<Rightarrow> import_state \<Rightarrow> nat \<Rightarrow> jsval \<Rightarrow> import_state" where
  "import_entry eps new_id acc index importItem =
     (case acc of (its, loadedCount, skippedCount) \<Rightarrow>
        if nullish importItem then (its, loadedCount, skippedCount + 1)
        else
          (case matching_endpoint eps importItem of
             Some matchingEndpoint \<Rightarrow>
               (let sequenceItem = new_item (new_id index) matchingEndpoint (- 1)
                                     empty_parameters (JObj []);
                    pushed = its @ [sequenceItem];
                    ps = convertParametersForImport pushed
                           (or_default (own_prop importItem ''parameters'') empty_parameters)
                           (length pushed - 1);
                    with_ps = its @ [sequenceItem\<lparr>parameters := ps\<rparr>]
                in case convertVariableMappingsForImport with_ps
                          (or_default (own_prop importItem ''variableMappings'') (JObj []))
                          (length with_ps - 1) of
                     Inl e \<Rightarrow> (with_ps, loadedCount, skippedCount + 1)
                   | Inr vms \<Rightarrow>
                       (its @ [sequenceItem\<lparr>parameters := ps, variableMappings := vms\<rparr>],
                        loadedCount + 1, skippedCount))
           | None \<Rightarrow>
               (its @ [placeholder_item (new_id index) index importItem],
                loadedCount + 1, skippedCount)))"

fun import_entries :: "endpoint list \<Rightarrow> (nat \<Rightarrow> string) \<Rightarrow> import_state \<Rightarrow> nat \<Rightarrow> jsval list \<Rightarrow> import_state" where
  "import_entries eps new_id acc index [] = acc"
| "import_entries eps new_id acc index (e # es) =
     import_entries eps new_id (import_entry eps new_id acc index e) (index + 1) es"

subsection \<open>The whole file\<close>

text \<open>
  What the import tells the user: the counts (the skipped count is shown when it is not
  zero), that no entry was loaded, that the import failed, with the message of the
  exception, or nothing when the user keeps the current sequence. An exception after
  the counts were shown gives both messages, the failure last.
\<close>

datatype import_report =
    Loaded nat nat
  | LoadedThenFailed nat nat string
  | NoValidEndpoints
  | ImportFailed string
  | Declined

definition clearSequence :: "explorer \<Rightarrow> explorer" where
  "clearSequence st =
     st\<lparr>apiSequence := [], sequenceResults := [], fieldMappings := JArr [],
        unifiedColumns := JArr []\<rparr>"

text \<open>
  The transformation settings of the file. Before the counts are shown the import
  tests \<open>dt && (dt.fieldMappings?.length > 0 || dt.unifiedColumns?.length > 0)\<close> and, if
  so, adds the two lengths up; after the counts are shown it stores the settings and
  tests the lengths of what it stored. Each comparison and each operand of the sum can
  throw.
\<close>

definition either_exceeds_zero :: "engine \<Rightarrow> jsval \<Rightarrow> jsval \<Rightarrow> string + bool" where
  "either_exceeds_zero E a b =
     bind_err (exceeds_zero E a) (\<lambda>first. if first then Inr True else exceeds_zero E b)"

definition count_settings :: "engine \<Rightarrow> jsval \<Rightarrow> string + bool" where
  "count_settings E dt =
     (if \<not> truthy dt then Inr False
      else
        (let n1 = opt_chain (own_prop dt ''fieldMappings'') ''length'';
             n2 = opt_chain (own_prop dt ''unifiedColumns'') ''length''
         in bind_err (either_exceeds_zero E n1 n2) (\<lambda>hasImportedTransformations.
              if hasImportedTransformations then
                bind_err (to_primitive E (or_default n1 (JNum (num_of_nat 0)))) (\<lambda>p1.
                bind_err (to_primitive E (or_default n2 (JNum (num_of_nat 0)))) (\<lambda>p2. Inr True))
              else Inr False)))"

text \<open>
  \<open>confirmed\<close> is the user's answer to the question whether the current sequence may be
  replaced; it is asked only when there is one. The new sequence is in place before it
  is rendered, and the rendering is inside the outer \<open>try\<close>: an exception there, or
  from the tests of the settings, turns the report into that of a failed import and
  leaves the steps loaded.
\<close>

definition loadSequenceFromData :: "engine \<Rightarrow> renderer \<Rightarrow> (nat \<Rightarrow> string) \<Rightarrow> bool \<Rightarrow> explorer \<Rightarrow> jsval \<Rightarrow> explorer \<times> import_report" where
  "loadSequenceFromData E R new_id confirmed st importData =
     (if nullish importData then (st, ImportFailed type_error)
      else
        (case own_prop importData ''sequence'' of
           JArr entries \<Rightarrow>
             (if apiSequence st \<noteq> [] \<and> \<not> confirmed then (st, Declined)
              else
                (case import_entries (endpoints st) new_id ([], 0, 0) 0 entries of
                   (its, loadedCount, skippedCount) \<Rightarrow>
                     (let st1 = (clearSequence st)\<lparr>apiSequence := its\<rparr>;
                          dt = own_prop importData ''dataTransformations''
                      in if loadedCount > 0 then
                           (case renderSequence R st1 of
                              Some e \<Rightarrow> (st1, ImportFailed e)
                            | None \<Rightarrow>
                                (case count_settings E dt of
                                   Inl e \<Rightarrow> (st1, ImportFailed e)
                                 | Inr counted \<Rightarrow>
                                     (if truthy dt then
                                        (let st2 = st1\<lparr>fieldMappings :=
                                                         or_default (own_prop dt ''fieldMappings'') (JArr []),
                                                       unifiedColumns :=
                                                         or_default (own_prop dt ''unifiedColumns'') (JArr [])\<rparr>
                                         in case either_exceeds_zero E
                                                   (own_prop (fieldMappings st2) ''length'')
                                                   (own_prop (unifiedColumns st2) ''length'') of
                                              Inl e \<Rightarrow> (st2, LoadedThenFailed loadedCount skippedCount e)
                                            | Inr shown \<Rightarrow> (st2, Loaded loadedCount skippedCount))
                                      else (st1, Loaded loadedCount skippedCount))))
                         else (st1, NoValidEndpoints))))
         | _ \<Rightarrow> (st, ImportFailed ''Invalid sequence format: missing or invalid sequence array'')))"

section \<open>Sessions and files of the examples\<close>

text \<open>
  Three steps: \<open>A\<close> lists the projects, \<open>B\<close> reads the tasks of the first project
  through a variable mapping, \<open>C\<close> reads the user. The API answers the first call
  with one project, the second with \<open>404\<close>, and would answer any other call with
  \<open>200\<close>.
\<close>

definition demo_sequence :: "item list" where
  "demo_sequence =
     [new_item ''seq_a'' (catalog_endpoint ''GET'' ''/projects'' ''Get projects'') 0
        (JObj [(''path'', JObj []), (''query'', JObj [(''limit'', JStr ''10'')]), (''body'', JNull)])
        (JObj []),
      new_item ''seq_b''
        (catalog_endpoint ''GET'' ''/projects/{project_gid}/tasks'' ''Get tasks'') 1
        (JObj [(''path'', JObj [(''project_gid'', JStr [])]), (''query'', JObj []), (''body'', JNull)])
        (JObj [(''project_gid'', JStr ''seq_a.data[0].gid'')]),
      new_item ''seq_c'' (catalog_endpoint ''GET'' ''/users/me'' ''Get me'') 2
        empty_parameters (JObj [])]"

definition demo_session :: explorer where
  "demo_session =
     \<lparr>endpoints = [], personalAccessToken = ''token'',
      baseUrl = ''https://app.asana.com/api/1.0'', apiSequence = demo_sequence,
      sequenceResults = [], fieldMappings = JArr [], unifiedColumns = JArr [], calls = []\<rparr>"

definition demo_fetch :: fetch where
  "demo_fetch n req =
     (if n = 0 then Response 200 (JObj [(''data'', JArr [JObj [(''gid'', JStr ''12'')]])])
      else if n = 1 then
        Response 404 (JObj [(''errors'', JArr [JObj [(''message'', JStr ''Not Found'')]])])
      else Response 200 (JObj [(''data'', JObj [])]))"

text \<open>A step whose only path parameter was left empty, with no variable mapping.\<close>

definition empty_param_item :: item where
  "empty_param_item =
     new_item ''seq_b''
        (catalog_endpoint ''GET'' ''/projects/{project_gid}/tasks'' ''Get tasks'') 0
        (JObj [(''path'', JObj [(''project_gid'', JStr [])]), (''query'', JObj []), (''body'', JNull)])
        (JObj [])"

definition demo_catalog :: "endpoint list" where
  "demo_catalog =
     [catalog_endpoint ''GET'' ''/projects'' ''Get projects'',
      catalog_endpoint ''GET'' ''/projects/{project_gid}/tasks'' ''Get tasks'',
      catalog_endpoint ''GET'' ''/users/me'' ''Get me'']"

definition empty_session :: explorer where
  "empty_session =
     \<lparr>endpoints = demo_catalog, personalAccessToken = ''token'',
      baseUrl = ''https://app.asana.com/api/1.0'', apiSequence = [],
      sequenceResults = [], fieldMappings = JArr [], unifiedColumns = JArr [], calls = []\<rparr>"

definition demo_new_id :: "nat \<Rightarrow> string" where
  "demo_new_id n = ''seq_'' @ show_nat n"

text \<open>
  The file of the testing guide's iteration test, with a third step: the second step
  is configured to iterate over the projects of the first one, each bound to \<open>item\<close>.
  The API answers the first call with five projects and every other call with two
  records.
\<close>

definition iteration_file :: jsval where
  "iteration_file =
     JObj [(''version'', JStr ''1.0''),
           (''sequence'',
            JArr [JObj [(''method'', JStr ''GET''), (''path'', JStr ''/projects''),
                        (''parameters'', empty_parameters), (''variableMappings'', JObj [])],
                  JObj [(''method'', JStr ''GET''), (''path'', JStr ''/projects/{project_gid}/tasks''),
                        (''parameters'',
                         JObj [(''path'', JObj [(''project_gid'', JStr ''{{item.gid}}'')]),
                               (''query'', JObj []), (''body'', JNull)]),
                        (''variableMappings'', JObj []),
                        (''iteration'',
                         JObj [(''enabled'', JBool True), (''sourceExpression'', JStr ''step0.data''),
                               (''loopVariableName'', JStr ''item''), (''unifyResults'', JBool True)])],
                  JObj [(''method'', JStr ''GET''), (''path'', JStr ''/users/me''),
                        (''parameters'', empty_parameters), (''variableMappings'', JObj [])]])]"

definition iteration_fetch :: fetch where
  "iteration_fetch n req =
     (if n = 0 then
        Response 200 (JObj [(''data'', JArr [JObj [(''gid'', JStr ''1'')], JObj [(''gid'', JStr ''2'')],
                                            JObj [(''gid'', JStr ''3'')], JObj [(''gid'', JStr ''4'')],
                                            JObj [(''gid'', JStr ''5'')]])])
      else Response 200 (JObj [(''data'', JArr [JObj [(''gid'', JStr ''t1'')], JObj [(''gid'', JStr ''t2'')]])]))"

text \<open>
  A step whose path parameter and whose query parameter \<open>project\<close> both hold the text
  \<open>proj-{{s.gid}}-{{s.name}}\<close>, in a session that has the result of a step \<open>s\<close>.
\<close>

definition inline_item :: item where
  "inline_item =
     new_item ''seq_b''
        (catalog_endpoint ''GET'' ''/projects/{project_gid}/tasks'' ''Get tasks'') 1
        (JObj [(''path'', JObj [(''project_gid'', JStr ''proj-{{s.gid}}-{{s.name}}'')]),
               (''query'', JObj [(''project'', JStr ''proj-{{s.gid}}-{{s.name}}'')]),
               (''body'', JNull)])
        (JObj [])"

definition inline_session :: explorer where
  "inline_session =
     \<lparr>endpoints = [], personalAccessToken = ''token'',
      baseUrl = ''https://app.asana.com/api/1.0'', apiSequence = [inline_item],
      sequenceResults = [(''s'', JObj [(''gid'', JStr ''7''), (''name'', JStr ''n'')])],
      fieldMappings = JArr [], unifiedColumns = JArr [], calls = []\<rparr>"

text \<open>The session of the examples with that step as its whole sequence.\<close>

definition empty_param_session :: explorer where
  "empty_param_session = demo_session\<lparr>apiSequence := [empty_param_item]\<rparr>"

text \<open>
  A file with two entries: the first matches an endpoint of the catalog, the second has
  a method and no path.
\<close>

definition pathless_file :: jsval where
  "pathless_file =
     JObj [(''version'', JStr ''1.0''),
           (''sequence'',
            JArr [JObj [(''method'', JStr ''GET''), (''path'', JStr ''/projects'')],
                  JObj [(''method'', JStr ''GET'')]])]"

section \<open>Properties of the resolver\<close>

subsection \<open>Splitting, numerals and \<open>parseInt\<close>\<close>

lemma split_on_nonempty [simp]: "split_on c s \<noteq> []"
  by (induction s) (auto split: list.splits)

lemma split_on_no_sep: "c \<notin> set s \<Longrightarrow> split_on c s = [s]"
  by (induction s) auto

lemma split_on_append: "c \<notin> set a \<Longrightarrow> split_on c (a @ c # rest) = a # split_on c rest"
  by (induction a) auto

lemma remove_first_end: "c \<notin> set ds \<Longrightarrow> remove_first c (ds @ c # rest) = ds @ rest"
  by (induction ds) auto

lemma is_digit_not_space: "is_digit c \<Longrightarrow> \<not> is_space c"
  by (auto simp: is_digit_def is_space_def)

lemma takeWhile_all: "list_all P xs \<Longrightarrow> takeWhile P xs = xs"
  by (induction xs) auto

lemma digits_no_char: "list_all is_digit ds \<Longrightarrow> \<not> is_digit c \<Longrightarrow> c \<notin> set ds"
  unfolding list_all_iff by blast

lemma digit_char_cases:
  assumes "d < 10"
  shows "digit_char d \<in> set ''0123456789'' \<and> digit_val (digit_char d) = d
         \<and> (digit_char d = CHR ''0'' \<longleftrightarrow> d = 0)"
proof -
  from assms have "d = 0 \<or> d = 1 \<or> d = 2 \<or> d = 3 \<or> d = 4 \<or> d = 5 \<or> d = 6 \<or> d = 7 \<or> d = 8 \<or> d = 9"
    by arith
  then show ?thesis
    by (elim disjE) (simp_all add: digit_char_def digit_val_def)
qed

lemma is_digit_digit_char: "d < 10 \<Longrightarrow> is_digit (digit_char d)"
  using digit_char_cases[of d] unfolding is_digit_def by blast

lemma digit_val_digit_char: "d < 10 \<Longrightarrow> digit_val (digit_char d) = d"
  using digit_char_cases[of d] by simp

lemma show_nat_digits: "list_all is_digit (show_nat n)"
proof (induction n rule: show_nat.induct)
  case (1 n)
  show ?case
  proof (cases "n < 10")
    case True
    then show ?thesis by (subst show_nat.simps) (simp add: is_digit_digit_char)
  next
    case False
    then show ?thesis using 1 by (subst show_nat.simps) (simp add: is_digit_digit_char)
  qed
qed

lemma show_nat_nonempty: "show_nat n \<noteq> []"
  by (subst show_nat.simps) simp

lemma dec_value_snoc: "dec_value (ds @ [c]) = 10 * dec_value ds + digit_val c"
  by (simp add: dec_value_def)

lemma dec_value_show_nat: "dec_value (show_nat n) = n"
proof (induction n rule: show_nat.induct)
  case (1 n)
  show ?case
  proof (cases "n < 10")
    case True
    then show ?thesis
      by (subst show_nat.simps) (simp add: dec_value_def digit_val_digit_char)
  next
    case False
    then have "dec_value (show_nat n) = 10 * dec_value (show_nat (n div 10)) + digit_val (digit_char (n mod 10))"
      by (subst show_nat.simps) (simp add: dec_value_snoc)
    also have "\<dots> = 10 * (n div 10) + n mod 10"
      using 1 False by (simp add: digit_val_digit_char)
    finally show ?thesis by simp
  qed
qed

lemma hd_show_nat: "hd (show_nat n) = CHR ''0'' \<Longrightarrow> n = 0"
proof (induction n rule: show_nat.induct)
  case (1 n)
  show ?case
  proof (cases "n < 10")
    case True
    with 1(2) have "digit_char n = CHR ''0''" by (subst (asm) show_nat.simps) simp
    with True show ?thesis using digit_char_cases[of n] by simp
  next
    case False
    with 1(2) have "hd (show_nat (n div 10)) = CHR ''0''"
      by (subst (asm) show_nat.simps) (simp add: show_nat_nonempty)
    with 1(1) False have "n div 10 = 0" by simp
    with False show ?thesis by simp
  qed
qed

lemma show_nat_zero: "show_nat 0 = ''0''"
  by (subst show_nat.simps) (simp add: digit_char_def)

lemma index_of_key_show_nat: "index_of_key (show_nat n) = Some n"
proof -
  have "show_nat n = ''0'' \<or> hd (show_nat n) \<noteq> CHR ''0''"
    using hd_show_nat[of n] show_nat_zero by auto
  then show ?thesis
    by (simp add: index_of_key_def show_nat_nonempty show_nat_digits dec_value_show_nat)
qed

lemma show_nat_not_length: "show_nat n \<noteq> ''length''"
proof
  assume "show_nat n = ''length''"
  then have "list_all is_digit ''length''" using show_nat_digits[of n] by simp
  then show False by (simp add: is_digit_def)
qed

lemma parse_digits_all:
  assumes "ds \<noteq> []" "list_all is_digit ds"
  shows "parse_digits ds = Some (dec_value ds)"
proof -
  have tw: "takeWhile is_digit ds = ds" using assms(2) by (rule takeWhile_all)
  have "\<not> is_digit (CHR ''x'')" "\<not> is_digit (CHR ''X'')" by (simp_all add: is_digit_def)
  then have "take 2 ds \<noteq> ''0x'' \<and> take 2 ds \<noteq> ''0X''"
    using assms(2) by (cases ds; cases "tl ds"; auto)
  then show ?thesis using assms(1) by (simp add: parse_digits_def Let_def tw)
qed

lemma parseInt_digits:
  assumes "ds \<noteq> []" "list_all is_digit ds"
  shows "parseInt ds = Some (int (dec_value ds))"
proof -
  obtain a rest where ds: "ds = a # rest" using assms(1) by (cases ds) auto
  with assms(2) have da: "is_digit a" by simp
  then have nsp: "\<not> is_space a" by (rule is_digit_not_space)
  have "a \<noteq> CHR ''-''" "a \<noteq> CHR ''+''" using da by (auto simp: is_digit_def)
  then show ?thesis
    using nsp parse_digits_all[OF assms] ds
    by (simp add: parseInt_def)
qed

lemma num_of_int_nat: "num_of_int (int n) = num_of_nat n"
  by (simp add: num_of_int_def)

lemma resolve_part_field:
  assumes "valid_seg (Field f)"
  shows "resolve_part E v (render_seg (Field f)) = get_prop E v f"
  using assms by (auto simp: resolve_part_def)

lemma resolve_part_index:
  assumes "valid_seg (Index f ds)"
  shows "resolve_part E v (render_seg (Index f ds))
         = bind_err (get_prop E v f) (\<lambda>a.
             if nullish a then Inr JUndefined else get_prop E a (index_key ds))"
proof -
  from assms have f: "CHR ''['' \<notin> set f" and ds: "ds \<noteq> []" "list_all is_digit ds" by auto
  have "\<not> is_digit CHR ''[''" "\<not> is_digit CHR '']''" by (simp_all add: is_digit_def)
  then have nb: "CHR ''['' \<notin> set ds" "CHR '']'' \<notin> set ds"
    using ds(2) digits_no_char by blast+
  have sp: "split_on CHR ''['' (f @ CHR ''['' # ds @ '']'') = [f, ds @ '']'']"
    using split_on_append[OF f, of "ds @ '']''"] nb by (simp add: split_on_no_sep)
  have rf: "remove_first CHR '']'' (ds @ '']'') = ds"
    using remove_first_end[OF nb(2), of "[]"] by simp
  have key: "num_key (parseInt ds) = index_key ds"
    unfolding parseInt_digits[OF ds] by (simp add: num_key_def index_key_def num_of_int_nat)
  have "resolve_part E v (f @ CHR ''['' # ds @ '']'') =
        bind_err (get_prop E v f) (\<lambda>a.
          if nullish a then Inr JUndefined
          else get_prop E a (num_key (parseInt (remove_first CHR '']'' (ds @ '']'')))))"
    unfolding resolve_part_def sp by simp
  then show ?thesis unfolding rf key by simp
qed

text \<open>On a value that is there, a plain access is what the loop of the resolver reads.\<close>

lemma resolve_part_plain:
  assumes "valid_seg s" "\<not> nullish v" "plain_access E v s"
  shows "resolve_part E v (render_seg s) = Inr (json_access v s)"
proof (cases s)
  case (Field f)
  then show ?thesis using assms resolve_part_field[of f E v]
    by (simp add: plain_read_def)
next
  case (Index f ds)
  with assms have r: "get_prop E v f = Inr (json_read v f)"
    and e: "nullish (json_read v f) \<or> get_prop E (json_read v f) (index_key ds)
              = Inr (json_read (json_read v f) (index_key ds))"
    by (simp_all add: plain_read_def)
  show ?thesis using Index assms(1) r e resolve_part_index[of f ds E v]
    by (auto simp: bind_err_def Let_def)
qed

lemma resolve_parts_plain:
  assumes "list_all valid_seg segs" "\<not> nullish v" "plain_walk E v segs"
  shows "resolve_parts E v (map render_seg segs) = Inr (json_walk v segs)"
  using assms
proof (induction segs arbitrary: v)
  case Nil
  then show ?case by simp
next
  case (Cons s segs)
  then have p: "resolve_part E v (render_seg s) = Inr (json_access v s)"
    by (simp add: resolve_part_plain)
  show ?case
  proof (cases "nullish (json_access v s)")
    case True
    then show ?thesis using p by (simp add: bind_err_def Let_def)
  next
    case False
    then have "resolve_parts E (json_access v s) (map render_seg segs)
               = Inr (json_walk (json_access v s) segs)"
      using Cons by simp
    then show ?thesis using p False by (simp add: bind_err_def Let_def)
  qed
qed

lemma render_seg_no_dot: "valid_seg s \<Longrightarrow> CHR ''.'' \<notin> set (render_seg s)"
proof (cases s)
  case (Field f)
  assume "valid_seg s" with Field show ?thesis by simp
next
  case (Index f ds)
  assume "valid_seg s"
  with Index have "CHR ''.'' \<notin> set f" "list_all is_digit ds" by simp_all
  moreover have "\<not> is_digit CHR ''.''" by (simp add: is_digit_def)
  ultimately show ?thesis using Index digits_no_char[of ds "CHR ''.''"] by simp
qed

lemma split_render_segs:
  "list_all valid_seg segs \<Longrightarrow> CHR ''.'' \<notin> set a \<Longrightarrow>
   split_on CHR ''.'' (a @ concat (map (\<lambda>s. CHR ''.'' # render_seg s) segs)) = a # map render_seg segs"
proof (induction segs arbitrary: a)
  case Nil then show ?case by (simp add: split_on_no_sep)
next
  case (Cons s segs)
  have "split_on CHR ''.'' (render_seg s @ concat (map (\<lambda>s. CHR ''.'' # render_seg s) segs)) = render_seg s # map render_seg segs"
    using Cons.IH[of "render_seg s"] Cons.prems render_seg_no_dot by simp
  then show ?case using split_on_append[OF Cons.prems(2)] by simp
qed

lemma falsy_has_nothing: "\<not> truthy e \<Longrightarrow> nullish (json_access e s)"
  by (cases e; cases s) (auto simp: Let_def)

text \<open>
  Claim C1, as amended. For a valid expression \<open>stepId.seg1. ... .segN\<close> with at least
  one segment and a store with an entry for \<open>stepId\<close>, \<open>resolveVariable\<close> returns what
  the walk through the decoded structure returns, which is \<open>null\<close> as soon as a value
  on the way is absent or \<open>null\<close>, provided the walk is plain: no segment names a
  built-in property of the value it is read from.
\<close>

theorem resolve_matches_hand_walk:
  assumes "CHR ''.'' \<notin> set stepId" "list_all valid_seg segs" "segs \<noteq> []"
    and "map_of sr stepId = Some entry" "plain_walk E entry segs"
  shows "resolveVariable E sr (render_expr stepId segs) = Inr (json_walk entry segs)"
proof (cases "truthy entry")
  case True
  then have "\<not> nullish entry" by (cases entry) simp_all
  then show ?thesis using True assms split_render_segs[OF assms(2,1)]
    by (simp add: resolveVariable_def render_expr_def lookup_def resolve_parts_plain)
next
  case False
  obtain s ss where segs: "segs = s # ss" using assms(3) by (cases segs) auto
  have "json_walk entry segs = JNull" using segs falsy_has_nothing[OF False] by simp
  then show ?thesis using False assms split_render_segs[OF assms(2,1)]
    by (simp add: resolveVariable_def render_expr_def lookup_def)
qed

text \<open>
  The theorem at the expression \<open>seq_1.data[0].gid\<close>, every read of which finds a field
  or an element.
\<close>

theorem resolve_matches_hand_walk_witness:
  "CHR ''.'' \<notin> set ''seq_1''
   \<and> list_all valid_seg [Index ''data'' ''0'', Field ''gid'']
   \<and> map_of [(''seq_1'', JObj [(''data'', JArr [JObj [(''gid'', JStr ''12'')], JNull])])] ''seq_1''
       = Some (JObj [(''data'', JArr [JObj [(''gid'', JStr ''12'')], JNull])])
   \<and> plain_walk bare_engine (JObj [(''data'', JArr [JObj [(''gid'', JStr ''12'')], JNull])])
        [Index ''data'' ''0'', Field ''gid'']
   \<and> resolveVariable bare_engine
        [(''seq_1'', JObj [(''data'', JArr [JObj [(''gid'', JStr ''12'')], JNull])])]
        (render_expr ''seq_1'' [Index ''data'' ''0'', Field ''gid'']) = Inr (JStr ''12'')"
proof -
  let ?entry = "JObj [(''data'', JArr [JObj [(''gid'', JStr ''12'')], JNull])]"
  let ?segs = "[Index ''data'' ''0'', Field ''gid'']"
  have h1: "CHR ''.'' \<notin> set ''seq_1''" by simp
  have h2: "list_all valid_seg ?segs" by (simp add: is_digit_def)
  have h3: "?segs \<noteq> []" by simp
  have h4: "map_of [(''seq_1'', ?entry)] ''seq_1'' = Some ?entry" by simp
  have h5: "plain_walk bare_engine ?entry ?segs" by code_simp
  have w: "json_walk ?entry ?segs = JStr ''12''" by code_simp
  note th = resolve_matches_hand_walk[OF h1 h2 h3 h4 h5, unfolded w]
  show ?thesis using h1 h2 h4 h5 th by blast
qed

text \<open>
  The claim as stated, for every valid expression: in \<open>seq_1.data.length\<close> the second
  segment names no field of the structure (\<open>data\<close> is an array of two strings), so the
  walk ends with \<open>null\<close>; the resolver reads the array's built-in \<open>length\<close> and returns
  \<open>2\<close>, whatever the engine.
\<close>

theorem resolve_builtin_length_counterexample:
  "list_all valid_seg [Field ''data'', Field ''length'']
   \<and> map_of [(''seq_1'', JObj [(''data'', JArr [JStr ''a'', JStr ''b''])])] ''seq_1''
       = Some (JObj [(''data'', JArr [JStr ''a'', JStr ''b''])])
   \<and> (\<forall>E. resolveVariable E [(''seq_1'', JObj [(''data'', JArr [JStr ''a'', JStr ''b''])])]
             (render_expr ''seq_1'' [Field ''data'', Field ''length''])
           = Inr (JNum (Finite False 2 0)))
   \<and> json_walk (JObj [(''data'', JArr [JStr ''a'', JStr ''b''])]) [Field ''data'', Field ''length'']
       = JNull"
proof (intro conjI allI)
  fix E
  show "resolveVariable E [(''seq_1'', JObj [(''data'', JArr [JStr ''a'', JStr ''b''])])]
             (render_expr ''seq_1'' [Field ''data'', Field ''length''])
           = Inr (JNum (Finite False 2 0))"
    by code_simp
qed code_simp+

lemma starts_with_take: "starts_with s t \<longleftrightarrow> take (length t) s = t"
  by (induction s t rule: starts_with.induct) auto

lemma lookup_absent: "k \<notin> fst ` set fs \<Longrightarrow> lookup fs k = JUndefined"
proof -
  assume "k \<notin> fst ` set fs"
  then have "map_of fs k = None" by (simp add: map_of_eq_None_iff)
  then show ?thesis by (simp add: lookup_def)
qed

lemma resolve_unknown_step:
  assumes "CHR ''.'' \<notin> set stepId" "stepId \<notin> fst ` set sr"
  shows "resolveVariable E sr (stepId @ CHR ''.'' # path) = Inr JNull"
  using split_on_append[OF assms(1), of path] lookup_absent[OF assms(2)]
  by (simp add: resolveVariable_def)

subsection \<open>Stable references at resolution time\<close>

text \<open>
  Claim C4, as amended. \<open>resolveVariable\<close> looks the step reference up in
  \<open>sequenceResults\<close> under the text before the first dot, and the store is written
  only under runtime ids (\<open>sequenceResults.set(item.id, ...)\<close>, ids of the form
  \<open>seq_...\<close>).
  In such a store a reference \<open>step<N>.<path>\<close> resolves to \<open>null\<close>, whatever \<open>N\<close> and
  the path are: a stable reference has to be rewritten to a runtime id first.
\<close>

theorem step_reference_resolves_to_null:
  assumes "list_all is_digit ds"
      and "list_all (\<lambda>k. starts_with k ''seq_'') (map fst sr)"
  shows "resolveVariable E sr (''step'' @ ds @ ''.'' @ path) = Inr JNull"
proof -
  have "\<not> is_digit CHR ''.''" by (simp add: is_digit_def)
  then have nd: "CHR ''.'' \<notin> set (''step'' @ ds)"
    using digits_no_char[OF assms(1)] by simp
  have ns: "\<not> starts_with (''step'' @ ds) ''seq_''" by simp
  have "\<forall>k \<in> fst ` set sr. starts_with k ''seq_''"
    using assms(2) unfolding list_all_iff by simp
  then have "''step'' @ ds \<notin> fst ` set sr"
    using ns by blast
  from resolve_unknown_step[OF nd this, of E path] show ?thesis by simp
qed

text \<open>The theorem for \<open>step0.data[0].gid\<close> in a store holding the result of one step.\<close>

theorem step_reference_resolves_to_null_witness:
  "list_all is_digit ''0''
   \<and> list_all (\<lambda>k. starts_with k ''seq_'')
        (map fst [(''seq_1'', JObj [(''data'', JArr [JObj [(''gid'', JStr ''12'')]])])])
   \<and> resolveVariable bare_engine [(''seq_1'', JObj [(''data'', JArr [JObj [(''gid'', JStr ''12'')]])])]
        ''step0.data[0].gid'' = Inr JNull"
  using step_reference_resolves_to_null[of "''0''"
      "[(''seq_1'', JObj [(''data'', JArr [JObj [(''gid'', JStr ''12'')]])])]" bare_engine
      "''data[0].gid''"]
  by (simp add: is_digit_def)

text \<open>
  The claim as stated: with the result of the step at position 0 stored under its
  runtime id \<open>seq_1\<close>, the runtime-id expression resolves to the value and the
  equivalent \<open>step0\<close> expression does not, whatever the engine.
\<close>

theorem step_reference_counterexample:
  "(\<forall>E. resolveVariable E [(''seq_1'', JObj [(''data'', JArr [JObj [(''gid'', JStr ''12'')]])])]
          ''seq_1.data[0].gid'' = Inr (JStr ''12''))
   \<and> (\<forall>E. resolveVariable E [(''seq_1'', JObj [(''data'', JArr [JObj [(''gid'', JStr ''12'')]])])]
          ''step0.data[0].gid'' = Inr JNull)"
proof (intro conjI allI)
  fix E
  show "resolveVariable E [(''seq_1'', JObj [(''data'', JArr [JObj [(''gid'', JStr ''12'')]])])]
          ''seq_1.data[0].gid'' = Inr (JStr ''12'')"
    by code_simp
  show "resolveVariable E [(''seq_1'', JObj [(''data'', JArr [JObj [(''gid'', JStr ''12'')]])])]
          ''step0.data[0].gid'' = Inr JNull"
    by code_simp
qed

subsection \<open>Unknown step references\<close>

text \<open>
  Claim C7, as amended. For a step id that has no store entry \<open>resolveVariable\<close>
  raises no error: it returns \<open>null\<close>, the value it also returns when a value on the
  path is absent.
\<close>

theorem unknown_step_returns_null:
  assumes "CHR ''.'' \<notin> set stepId" "map_of sr stepId = None"
  shows "resolveVariable E sr (stepId @ ''.'' @ path) = Inr JNull"
  using split_on_append[OF assms(1), of path] assms(2)
  by (simp add: resolveVariable_def lookup_def)

text \<open>The theorem for the reference \<open>ghost.a\<close> in a store that only knows \<open>s\<close>.\<close>

theorem unknown_step_returns_null_witness:
  "CHR ''.'' \<notin> set ''ghost'' \<and> map_of [(''s'', JObj [(''a'', JNum (Finite False 1 0))])] ''ghost'' = None
   \<and> resolveVariable bare_engine [(''s'', JObj [(''a'', JNum (Finite False 1 0))])] ''ghost.a''
       = Inr JNull"
  using unknown_step_returns_null[of "''ghost''" "[(''s'', JObj [(''a'', JNum (Finite False 1 0))])]"
      bare_engine "''a''"]
  by simp

text \<open>
  The claim as stated: an unknown step (\<open>ghost\<close>) and an absent field of a known step
  (\<open>s.b\<close>) give the same result, \<open>null\<close>, and no error is raised for the first.
\<close>

theorem unknown_step_counterexample:
  "map_of [(''s'', JObj [(''a'', JNum (Finite False 1 0))])] ''ghost'' = None
   \<and> map_of [(''s'', JObj [(''a'', JNum (Finite False 1 0))])] ''s'' \<noteq> None
   \<and> (\<forall>E. resolveVariable E [(''s'', JObj [(''a'', JNum (Finite False 1 0))])] ''ghost.a''
           = Inr JNull)
   \<and> resolveVariable bare_engine [(''s'', JObj [(''a'', JNum (Finite False 1 0))])] ''s.b''
       = Inr JNull"
proof (intro conjI allI)
  fix E
  show "resolveVariable E [(''s'', JObj [(''a'', JNum (Finite False 1 0))])] ''ghost.a'' = Inr JNull"
    by code_simp
qed code_simp+

subsection \<open>Inline placeholders\<close>

lemma match_placeholder_here:
  assumes "e \<noteq> []" "CHR ''}'' \<notin> set e"
  shows "match_placeholder_at (''{{'' @ e @ ''}}'' @ post) = Some e"
proof -
  have "takeWhile (\<lambda>c. c \<noteq> CHR ''}'') (e @ ''}}'' @ post) = e"
    using assms(2) by (induction e) auto
  moreover have "dropWhile (\<lambda>c. c \<noteq> CHR ''}'') (e @ ''}}'' @ post) = ''}}'' @ post"
    using assms(2) by (induction e) auto
  ultimately show ?thesis using assms(1) by (simp add: match_placeholder_at_def)
qed

lemma match_placeholder_not_brace: "take 2 s \<noteq> ''{{'' \<Longrightarrow> match_placeholder_at s = None"
  by (simp add: match_placeholder_at_def)

lemma find_placeholder_skip:
  assumes "\<not> includes_str pre ''{{''" "pre = [] \<or> last pre \<noteq> CHR ''{''"
      and "match_placeholder_at (''{{'' @ rest) = Some e"
  shows "find_placeholder (pre @ ''{{'' @ rest) = Some e"
  using assms(1,2)
proof (induction pre)
  case Nil
  then show ?case using assms(3) by simp
next
  case (Cons c pre)
  have nb: "take 2 ((c # pre) @ ''{{'' @ rest) \<noteq> ''{{''"
  proof (cases pre)
    case Nil
    with Cons.prems(2) show ?thesis by simp
  next
    case (Cons d pre')
    with Cons.prems(1) show ?thesis by auto
  qed
  have "\<not> includes_str pre ''{{''" using Cons.prems(1) by simp
  moreover have "pre = [] \<or> last pre \<noteq> CHR ''{''" using Cons.prems(2) by (cases pre) auto
  ultimately have "find_placeholder (pre @ ''{{'' @ rest) = Some e" by (rule Cons.IH)
  then show ?case using match_placeholder_not_brace[OF nb] by simp
qed

lemma starts_with_append: "starts_with (t @ b) t"
  by (induction t) simp_all

lemma includes_str_start: "starts_with s t \<Longrightarrow> includes_str s t"
  by (cases s) (auto elim: starts_with.elims)

lemma includes_str_mid: "includes_str (a @ t @ b) t"
proof (induction a)
  case Nil
  show ?case using includes_str_start[OF starts_with_append] by simp
next
  case (Cons x a)
  then show ?case by simp
qed

lemma bind_err_Inr [simp]: "bind_err (Inr v) g = g v"
  by (simp add: bind_err_def)

lemma bind_err_Inl [simp]: "bind_err (Inl m) g = Inl m"
  by (simp add: bind_err_def)

lemma bind_err_return: "bind_err x Inr = x"
  by (cases x) simp_all

lemma to_string_null: "to_string E JNull = Inr ''null''"
  by simp

lemma join_with_snoc_nonempty: "y \<noteq> [] \<Longrightarrow> join_with sep (xs @ [y]) \<noteq> []"
  by (induction sep xs rule: join_with.induct) auto

lemma search_params_nonempty: "search_params_to_string (ps @ [(k, v)]) \<noteq> []"
  unfolding search_params_to_string_def
  using join_with_snoc_nonempty[of "form_encode k @ ''='' @ form_encode v" "''&''"
      "map (\<lambda>(k, v). form_encode k @ ''='' @ form_encode v) ps"]
  by simp

lemma placeholder_value:
  assumes "\<not> includes_str pre ''{{''" "pre = [] \<or> last pre \<noteq> CHR ''{''"
      and "e \<noteq> []" "CHR ''}'' \<notin> set e"
  shows "resolveVariablePlaceholder E sr (pre @ ''{{'' @ e @ ''}}'' @ post)
           = bind_err (resolveVariable E sr e) (\<lambda>v. bind_err (to_string E v) (\<lambda>logged. Inr v))"
  using find_placeholder_skip[OF assms(1,2) match_placeholder_here[OF assms(3,4), of post]]
  by (simp add: resolveVariablePlaceholder_def)

lemma placeholder_inline:
  assumes "\<not> includes_str pre ''{{''" "pre = [] \<or> last pre \<noteq> CHR ''{''"
      and "e \<noteq> []" "CHR ''}'' \<notin> set e"
  shows "resolve_inline E sr (JStr (pre @ ''{{'' @ e @ ''}}'' @ post))
           = bind_err (resolveVariable E sr e) (\<lambda>v. bind_err (to_string E v) (\<lambda>logged. Inr v))"
proof -
  let ?v = "pre @ ''{{'' @ e @ ''}}'' @ post"
  have o: "includes_str ?v ''{{''" by (rule includes_str_mid)
  have c: "includes_str ?v ''}}''"
    using includes_str_mid[of "pre @ ''{{'' @ e" "''}}''" post] by simp
  have n: "?v \<noteq> []" by simp
  show ?thesis using placeholder_value[OF assms, of E sr post] o c n
    by (simp only: resolve_inline_def jsval.case if_True simp_thms)
qed

lemma placeholder_query_pair:
  assumes "\<not> includes_str pre ''{{''" "pre = [] \<or> last pre \<noteq> CHR ''{''"
      and "e \<noteq> []" "CHR ''}'' \<notin> set e"
  shows "query_pair E sr (k, JStr (pre @ ''{{'' @ e @ ''}}'' @ post))
           = bind_err (resolveVariable E sr e) (\<lambda>v. bind_err (to_string E v) (\<lambda>text.
               Inr (if v \<noteq> JNull then [(k, text)] else [])))"
proof -
  let ?v = "pre @ ''{{'' @ e @ ''}}'' @ post"
  have o: "includes_str ?v ''{{''" by (rule includes_str_mid)
  have c: "includes_str ?v ''}}''"
    using includes_str_mid[of "pre @ ''{{'' @ e" "''}}''" post] by simp
  have n: "?v \<noteq> []" by simp
  have q: "query_pair E sr (k, JStr ?v)
           = bind_err (resolveVariablePlaceholder E sr ?v) (\<lambda>resolvedValue.
               if resolvedValue \<noteq> JNull then
                 bind_err (to_string E resolvedValue) (\<lambda>text. Inr [(k, text)])
               else Inr [])"
    using o c n
    by (simp only: query_pair_def Let_def jsval.case truthy.simps fst_conv snd_conv if_True
          simp_thms)
  show ?thesis
    unfolding q placeholder_value[OF assms]
    by (cases "resolveVariable E sr e"; cases "to_string E (projr (resolveVariable E sr e))")
       (auto)
qed

lemma placeholder_path_param:
  assumes "\<not> includes_str pre ''{{''" "pre = [] \<or> last pre \<noteq> CHR ''{''"
      and "e \<noteq> []" "CHR ''}'' \<notin> set e"
      and "read_prop (parameters it) ''path'' = Inr pathObj"
      and "get_prop E pathObj param = Inr (JStr (pre @ ''{{'' @ e @ ''}}'' @ post))"
      and "get_prop E (variableMappings it) param = Inr m" "\<not> truthy m"
  shows "substitute_path_param E sr it url param
           = bind_err (resolveVariable E sr e) (\<lambda>v. bind_err (to_string E v) (\<lambda>text.
               Inr (if truthy v
                    then replace_first (''{'' @ param @ ''}'') (encodeURIComponent text) url
                    else url)))"
  unfolding substitute_path_param_def assms(5,6,7) bind_err_Inr
  using assms(8) placeholder_inline[OF assms(1-4), of E sr post]
  by (cases "resolveVariable E sr e"; cases "to_string E (projr (resolveVariable E sr e))")
     (auto)

text \<open>
  Claim C10. A value made of literal text \<open>pre\<close> in which no placeholder can start, a
  placeholder \<open>{{e}}\<close> and any further text \<open>post\<close> (more literal text, more
  placeholders) resolves to the value of \<open>e\<close> alone: \<open>pre\<close> and \<open>post\<close> are dropped.
  (The function writes the value to the console as text first, so it throws for a value
  that has no text.) A query parameter is sent with the text of that value, or left out
  when it is \<open>null\<close>. In the request of a step whose one path parameter and whose one
  query parameter hold such a value, the text of the value of \<open>e\<close>, and nothing of \<open>pre\<close>
  and \<open>post\<close>, stands in the url for the parameter (which keeps its place when the value
  is falsy) and in the query string.
\<close>

theorem placeholder_resolves_first_only:
  assumes "\<not> includes_str pre ''{{''" "pre = [] \<or> last pre \<noteq> CHR ''{''"
      and "e \<noteq> []" "CHR ''}'' \<notin> set e"
      and "literal = pre @ ''{{'' @ e @ ''}}'' @ post"
  shows "resolveVariablePlaceholder E sr literal
           = bind_err (resolveVariable E sr e) (\<lambda>v. bind_err (to_string E v) (\<lambda>logged. Inr v))
       \<and> resolve_inline E sr (JStr literal)
           = bind_err (resolveVariable E sr e) (\<lambda>v. bind_err (to_string E v) (\<lambda>logged. Inr v))
       \<and> query_pair E sr (k, JStr literal)
           = bind_err (resolveVariable E sr e) (\<lambda>v. bind_err (to_string E v) (\<lambda>text.
               Inr (if v \<noteq> JNull then [(k, text)] else [])))
       \<and> (ep_path (endpoint it) = JStr p \<and> path_param_names p = [param]
            \<and> read_prop (parameters it) ''path'' = Inr pathObj
            \<and> get_prop E pathObj param = Inr (JStr literal)
            \<and> get_prop E (variableMappings it) param = Inr m \<and> \<not> truthy m
            \<and> own_entries (own_prop (parameters it) ''query'') = [(k, JStr literal)]
          \<longrightarrow> build_request E st it
                = bind_err (resolveVariable E (sequenceResults st) e) (\<lambda>v.
                  bind_err (to_string E v) (\<lambda>text.
                    (let body = own_prop (parameters it) ''body'';
                         headers = [(''Authorization'', ''Bearer '' @ personalAccessToken st),
                                    (''Accept'', ''application/json'')];
                         with_body = (truthy body
                                      \<and> ep_method (endpoint it)
                                         \<in> {JStr ''POST'', JStr ''PUT'', JStr ''PATCH''})
                     in Inr \<lparr>req_method = ep_method (endpoint it),
                             req_url =
                               (if truthy v
                                then replace_first (''{'' @ param @ ''}'')
                                       (encodeURIComponent text) (baseUrl st @ p)
                                else baseUrl st @ p)
                               @ ''?''
                               @ search_params_to_string
                                   ((if v \<noteq> JNull then [(k, text)] else [])
                                    @ [(''opt_pretty'', ''true'')]),
                             req_headers =
                               (if with_body
                                then headers @ [(''Content-Type'', ''application/json'')]
                                else headers),
                             req_body = (if with_body then body else JUndefined)\<rparr>))))"
proof (intro conjI impI)
  note h = assms(1-4)
  show "resolveVariablePlaceholder E sr literal
          = bind_err (resolveVariable E sr e) (\<lambda>v. bind_err (to_string E v) (\<lambda>logged. Inr v))"
    unfolding assms(5) by (rule placeholder_value[OF h])
  show "resolve_inline E sr (JStr literal)
          = bind_err (resolveVariable E sr e) (\<lambda>v. bind_err (to_string E v) (\<lambda>logged. Inr v))"
    unfolding assms(5) by (rule placeholder_inline[OF h])
  show "query_pair E sr (k, JStr literal)
          = bind_err (resolveVariable E sr e) (\<lambda>v. bind_err (to_string E v) (\<lambda>text.
              Inr (if v \<noteq> JNull then [(k, text)] else [])))"
    unfolding assms(5) by (rule placeholder_query_pair[OF h])
next
  note h = assms(1-4)
  let ?sr = "sequenceResults st"
  let ?q = "own_prop (parameters it) ''query''"
  assume a: "ep_path (endpoint it) = JStr p \<and> path_param_names p = [param]
            \<and> read_prop (parameters it) ''path'' = Inr pathObj
            \<and> get_prop E pathObj param = Inr (JStr literal)
            \<and> get_prop E (variableMappings it) param = Inr m \<and> \<not> truthy m
            \<and> own_entries (own_prop (parameters it) ''query'') = [(k, JStr literal)]"
  then have ep: "ep_path (endpoint it) = JStr p" and pn: "path_param_names p = [param]"
    and rp: "read_prop (parameters it) ''path'' = Inr pathObj"
    and gl: "get_prop E pathObj param = Inr (JStr (pre @ ''{{'' @ e @ ''}}'' @ post))"
    and gm: "get_prop E (variableMappings it) param = Inr m" and nm: "\<not> truthy m"
    and oe: "own_entries ?q = [(k, JStr (pre @ ''{{'' @ e @ ''}}'' @ post))]"
    unfolding assms(5) by simp_all
  have np: "\<not> nullish (parameters it)"
    using rp by (auto simp add: read_prop_def split: if_splits)
  have nq: "\<not> nullish ?q"
    using oe by (cases ?q) auto
  have s: "fold_err (substitute_path_param E ?sr it) (baseUrl st @ p) [param]
           = bind_err (resolveVariable E ?sr e) (\<lambda>v. bind_err (to_string E v) (\<lambda>text.
               Inr (if truthy v
                    then replace_first (''{'' @ param @ ''}'') (encodeURIComponent text)
                           (baseUrl st @ p)
                    else baseUrl st @ p)))"
    using placeholder_path_param[OF h rp gl gm nm, of ?sr "baseUrl st @ p"]
    by (simp add: bind_err_return)
  have q: "buildQueryParameters E ?sr it
           = bind_err (resolveVariable E ?sr e) (\<lambda>v. bind_err (to_string E v) (\<lambda>text.
               Inr ((if v \<noteq> JNull then [(k, text)] else []) @ [(''opt_pretty'', ''true'')])))"
    unfolding buildQueryParameters_def
    using np nq oe placeholder_query_pair[OF h, of E ?sr k post]
    by (cases "resolveVariable E ?sr e"; cases "to_string E (projr (resolveVariable E ?sr e))")
       (auto simp add: read_prop_def)
  show "build_request E st it
                = bind_err (resolveVariable E (sequenceResults st) e) (\<lambda>v.
                  bind_err (to_string E v) (\<lambda>text.
                    (let body = own_prop (parameters it) ''body'';
                         headers = [(''Authorization'', ''Bearer '' @ personalAccessToken st),
                                    (''Accept'', ''application/json'')];
                         with_body = (truthy body
                                      \<and> ep_method (endpoint it)
                                         \<in> {JStr ''POST'', JStr ''PUT'', JStr ''PATCH''})
                     in Inr \<lparr>req_method = ep_method (endpoint it),
                             req_url =
                               (if truthy v
                                then replace_first (''{'' @ param @ ''}'')
                                       (encodeURIComponent text) (baseUrl st @ p)
                                else baseUrl st @ p)
                               @ ''?''
                               @ search_params_to_string
                                   ((if v \<noteq> JNull then [(k, text)] else [])
                                    @ [(''opt_pretty'', ''true'')]),
                             req_headers =
                               (if with_body
                                then headers @ [(''Content-Type'', ''application/json'')]
                                else headers),
                             req_body = (if with_body then body else JUndefined)\<rparr>)))"
    unfolding build_request_def ep extractPathParameters_def jsval.case to_string.simps
      bind_err_Inr pn s q
    using np search_params_nonempty
    by (cases "resolveVariable E ?sr e"; cases "to_string E (projr (resolveVariable E ?sr e))")
       (simp_all add: read_prop_def Let_def)
qed

text \<open>
  The theorem for the value \<open>proj-{{s.gid}}-{{s.name}}\<close> of a path parameter and of a query
  parameter: the request goes to \<open>/projects/7/tasks?project=7\<close>.
\<close>

theorem placeholder_resolves_first_only_witness:
  "\<not> includes_str ''proj-'' ''{{'' \<and> last ''proj-'' \<noteq> CHR ''{''
   \<and> ''s.gid'' \<noteq> [] \<and> CHR ''}'' \<notin> set ''s.gid''
   \<and> ''proj-{{s.gid}}-{{s.name}}'' = ''proj-'' @ ''{{'' @ ''s.gid'' @ ''}}'' @ ''-{{s.name}}''
   \<and> ep_path (endpoint inline_item) = JStr ''/projects/{project_gid}/tasks''
   \<and> path_param_names ''/projects/{project_gid}/tasks'' = [''project_gid'']
   \<and> read_prop (parameters inline_item) ''path''
       = Inr (JObj [(''project_gid'', JStr ''proj-{{s.gid}}-{{s.name}}'')])
   \<and> get_prop bare_engine (JObj [(''project_gid'', JStr ''proj-{{s.gid}}-{{s.name}}'')])
        ''project_gid'' = Inr (JStr ''proj-{{s.gid}}-{{s.name}}'')
   \<and> get_prop bare_engine (variableMappings inline_item) ''project_gid'' = Inr JUndefined
   \<and> \<not> truthy JUndefined
   \<and> own_entries (own_prop (parameters inline_item) ''query'')
       = [(''project'', JStr ''proj-{{s.gid}}-{{s.name}}'')]
   \<and> resolveVariablePlaceholder bare_engine (sequenceResults inline_session)
        ''proj-{{s.gid}}-{{s.name}}'' = Inr (JStr ''7'')
   \<and> query_pair bare_engine (sequenceResults inline_session)
        (''project'', JStr ''proj-{{s.gid}}-{{s.name}}'') = Inr [(''project'', ''7'')]
   \<and> build_request bare_engine inline_session inline_item
       = Inr \<lparr>req_method = JStr ''GET'',
              req_url = ''https://app.asana.com/api/1.0/projects/7/tasks?project=7&opt_pretty=true'',
              req_headers = [(''Authorization'', ''Bearer token''), (''Accept'', ''application/json'')],
              req_body = JUndefined\<rparr>"
proof -
  let ?lit = "''proj-{{s.gid}}-{{s.name}}''"
  let ?sr = "sequenceResults inline_session"
  let ?po = "JObj [(''project_gid'', JStr ?lit)]"
  have h1: "\<not> includes_str ''proj-'' ''{{''" by simp
  have h2': "last ''proj-'' \<noteq> CHR ''{''" by simp
  then have h2: "''proj-'' = [] \<or> last ''proj-'' \<noteq> CHR ''{''" by simp
  have h3: "''s.gid'' \<noteq> []" by simp
  have h4: "CHR ''}'' \<notin> set ''s.gid''" by simp
  have h5: "?lit = ''proj-'' @ ''{{'' @ ''s.gid'' @ ''}}'' @ ''-{{s.name}}''" by simp
  have a1: "ep_path (endpoint inline_item) = JStr ''/projects/{project_gid}/tasks''" by code_simp
  have a2: "path_param_names ''/projects/{project_gid}/tasks'' = [''project_gid'']" by code_simp
  have a3: "read_prop (parameters inline_item) ''path'' = Inr ?po" by code_simp
  have a4: "get_prop bare_engine ?po ''project_gid'' = Inr (JStr ?lit)" by code_simp
  have a5: "get_prop bare_engine (variableMappings inline_item) ''project_gid'' = Inr JUndefined"
    by code_simp
  have a6: "\<not> truthy JUndefined" by simp
  have a7: "own_entries (own_prop (parameters inline_item) ''query'') = [(''project'', JStr ?lit)]"
    by code_simp
  have rv: "resolveVariable bare_engine ?sr ''s.gid'' = Inr (JStr ''7'')" by code_simp
  have mt: "ep_method (endpoint inline_item) = JStr ''GET''" by code_simp
  have bd: "own_prop (parameters inline_item) ''body'' = JNull" by code_simp
  have tk: "personalAccessToken inline_session = ''token''" by code_simp
  have ur: "replace_first (''{'' @ ''project_gid'' @ ''}'') (encodeURIComponent ''7'')
              (baseUrl inline_session @ ''/projects/{project_gid}/tasks'')
            @ ''?'' @ search_params_to_string [(''project'', ''7''), (''opt_pretty'', ''true'')]
            = ''https://app.asana.com/api/1.0/projects/7/tasks?project=7&opt_pretty=true''"
    by code_simp
  note th = placeholder_resolves_first_only[OF h1 h2 h3 h4 h5,
      where E = bare_engine and sr = ?sr and k = "''project''" and it = inline_item
        and p = "''/projects/{project_gid}/tasks''" and param = "''project_gid''"
        and pathObj = ?po and m = JUndefined and st = inline_session]
  have c1: "resolveVariablePlaceholder bare_engine ?sr ?lit = Inr (JStr ''7'')"
    using th rv by simp
  have c3: "query_pair bare_engine ?sr (''project'', JStr ?lit) = Inr [(''project'', ''7'')]"
    using th rv by simp
  have c4: "build_request bare_engine inline_session inline_item
       = Inr \<lparr>req_method = JStr ''GET'',
              req_url = ''https://app.asana.com/api/1.0/projects/7/tasks?project=7&opt_pretty=true'',
              req_headers = [(''Authorization'', ''Bearer token''), (''Accept'', ''application/json'')],
              req_body = JUndefined\<rparr>"
    using th a1 a2 a3 a4 a5 a6 a7 rv mt bd tk ur by (simp add: Let_def)
  show ?thesis using h1 h2' h3 h4 h5 a1 a2 a3 a4 a5 a6 a7 c1 c3 c4 by blast
qed

section \<open>Properties of \<open>flattenObject\<close>\<close>

























section \<open>Properties of the rewriter\<close>

lemma find_index_Some: "find_index P xs = Some i \<Longrightarrow> i < length xs \<and> P (xs ! i)"
proof (induction xs arbitrary: i)
  case Nil then show ?case by simp
next
  case (Cons x xs)
  then show ?case by (cases "P x") (auto split: if_splits)
qed

lemma lazy_until_close_path:
  assumes "CHR ''}'' \<notin> set p" "\<not> list_ex is_line_terminator p"
  shows "lazy_until_close (p @ ''}}'' @ t) = Some (p, t)"
  using assms by (induction p) (auto)

lemma takeWhile_run: "list_all P w \<Longrightarrow> \<not> P c \<Longrightarrow> takeWhile P (w @ c # t) = w"
  by (induction w) auto

lemma dropWhile_run: "list_all P w \<Longrightarrow> \<not> P c \<Longrightarrow> dropWhile P (w @ c # t) = c # t"
  by (induction w) auto

lemma match_runtime_ref_here:
  assumes "w \<noteq> []" "list_all is_word_char w" "CHR ''}'' \<notin> set p" "\<not> list_ex is_line_terminator p"
  shows "match_runtime_ref (render_ref w p @ t) = Some (''seq_'' @ w, ''.'' @ p, t)"
proof -
  have nd: "\<not> is_word_char CHR ''.''" by (simp add: is_word_char_def)
  have 1: "takeWhile is_word_char (w @ CHR ''.'' # p @ ''}}'' @ t) = w"
    by (rule takeWhile_run[OF assms(2) nd])
  have 2: "dropWhile is_word_char (w @ CHR ''.'' # p @ ''}}'' @ t) = CHR ''.'' # p @ ''}}'' @ t"
    by (rule dropWhile_run[OF assms(2) nd])
  show ?thesis
    using assms(1) lazy_until_close_path[OF assms(3,4), of t] 1 2
    by (simp add: match_runtime_ref_def render_ref_def Let_def)
qed

lemma match_step_ref_here:
  assumes "ds \<noteq> []" "list_all is_digit ds" "CHR ''}'' \<notin> set p" "\<not> list_ex is_line_terminator p"
  shows "match_step_ref (''{{step'' @ ds @ ''.'' @ p @ ''}}'' @ t) = Some (ds, ''.'' @ p, t)"
proof -
  have nd: "\<not> is_digit CHR ''.''" by (simp add: is_digit_def)
  have 1: "takeWhile is_digit (ds @ CHR ''.'' # p @ ''}}'' @ t) = ds"
    by (rule takeWhile_run[OF assms(2) nd])
  have 2: "dropWhile is_digit (ds @ CHR ''.'' # p @ ''}}'' @ t) = CHR ''.'' # p @ ''}}'' @ t"
    by (rule dropWhile_run[OF assms(2) nd])
  show ?thesis
    using assms(1) lazy_until_close_path[OF assms(3,4), of t] 1 2
    by (simp add: match_step_ref_def Let_def)
qed

lemma replace_all_literal:
  assumes m: "\<And>s. m s \<noteq> None \<Longrightarrow> take 2 s = ''{{'' \<and> take 3 s \<noteq> ''{{{''"
      and "\<not> includes_str lit ''{{''" "t = [] \<or> take 2 t = ''{{''"
  shows "replace_all m (lit @ t) = lit @ replace_all m t"
  using assms(2)
proof (induction lit)
  case Nil then show ?case by simp
next
  case (Cons c lit)
  have "m ((c # lit) @ t) = None"
  proof (rule ccontr)
    assume "m ((c # lit) @ t) \<noteq> None"
    from m[OF this] have 2: "take 2 ((c # lit) @ t) = ''{{''" and 3: "take 3 ((c # lit) @ t) \<noteq> ''{{{''"
      by simp_all
    show False
    proof (cases lit)
      case Nil
      with 2 3 assms(3) show ?thesis by (cases t; cases "tl t") auto
    next
      case (Cons d lit')
      with 2 Cons.prems show ?thesis by simp
    qed
  qed
  moreover have "\<not> includes_str lit ''{{''" using Cons.prems by simp
  ultimately show ?case using Cons.IH by (subst replace_all.simps) simp
qed

lemma replace_all_match:
  assumes "m (a @ t) = Some (r, t)" "a \<noteq> []"
  shows "replace_all m (a @ t) = r @ replace_all m t"
  using assms by (subst replace_all.simps) simp


lemma replace_all_nil: "m [] = None \<Longrightarrow> replace_all m [] = []"
  by (subst replace_all.simps) simp

lemma runtime_matcher_braces:
  assumes "(case match_runtime_ref s of
              Some (sequenceId, path, rest) \<Rightarrow> Some (f sequenceId path, rest)
            | None \<Rightarrow> None) \<noteq> None"
  shows "take 2 s = ''{{'' \<and> take 3 s \<noteq> ''{{{''"
proof -
  from assms have 6: "take 6 s = ''{{seq_''"
    by (auto simp: match_runtime_ref_def split: if_splits)
  have "take 2 s = take 2 (take 6 s)" "take 3 s = take 3 (take 6 s)" by simp_all
  then show ?thesis unfolding 6 by simp
qed

lemma step_matcher_braces:
  assumes "(case match_step_ref s of
              Some (stepIndex, path, rest) \<Rightarrow> Some (f stepIndex path, rest)
            | None \<Rightarrow> None) \<noteq> None"
  shows "take 2 s = ''{{'' \<and> take 3 s \<noteq> ''{{{''"
proof -
  from assms have 6: "take 6 s = ''{{step''"
    by (auto simp: match_step_ref_def split: if_splits)
  have "take 2 s = take 2 (take 6 s)" "take 3 s = take 3 (take 6 s)" by simp_all
  then show ?thesis unfolding 6 by simp
qed

lemma to_stable_callback_backward:
  assumes "backward_ref items n w p"
  shows "to_stable_callback items n (''seq_'' @ w) (''.'' @ p) = render_stable_ref items w p"
  using assms
  by (auto simp: backward_ref_def to_stable_callback_def render_stable_ref_def position_of_def
           split: option.splits)

lemma to_runtime_callback_backward:
  assumes "backward_ref items n w p"
  shows "to_runtime_callback items n (show_nat (position_of items w)) (''.'' @ p)
         = render_ref w p"
proof -
  from assms obtain i where i: "find_index (\<lambda>it. item_id it = ''seq_'' @ w) items = Some i"
    and lt: "i < n" by (auto simp: backward_ref_def split: option.splits)
  from find_index_Some[OF i] have len: "i < length items" and idw: "item_id (items ! i) = ''seq_'' @ w"
    by simp_all
  have pos: "position_of items w = i" using i by (simp add: position_of_def)
  have pi: "parseInt (show_nat i) = Some (int i)"
    using parseInt_digits[OF show_nat_nonempty show_nat_digits, of i] by (simp add: dec_value_show_nat)
  show ?thesis using lt len idw
    by (simp add: to_runtime_callback_def pos pi render_ref_def)
qed

lemma to_stable_refs:
  assumes "\<not> includes_str lit0 ''{{''"
      and "list_all (\<lambda>(w, p, lit). backward_ref items n w p \<and> \<not> includes_str lit ''{{'') refs"
  shows "convertVariableToStepReference items
           (lit0 @ concat (map (\<lambda>(w, p, lit). render_ref w p @ lit) refs)) n
         = lit0 @ concat (map (\<lambda>(w, p, lit). render_stable_ref items w p @ lit) refs)"
  using assms
proof (induction refs arbitrary: lit0)
  case Nil
  let ?m = "\<lambda>s. case match_runtime_ref s of
               Some (sequenceId, path, rest) \<Rightarrow> Some (to_stable_callback items n sequenceId path, rest)
             | None \<Rightarrow> None"
  have "replace_all ?m (lit0 @ []) = lit0 @ replace_all ?m []"
    by (rule replace_all_literal[OF runtime_matcher_braces Nil.prems(1)]) simp_all
  moreover have "replace_all ?m [] = []"
    by (rule replace_all_nil) (simp add: match_runtime_ref_def)
  ultimately show ?case by (simp add: convertVariableToStepReference_def)
next
  case (Cons r refs)
  obtain w p lit where r: "r = (w, p, lit)" by (cases r)
  let ?m = "\<lambda>s. case match_runtime_ref s of
               Some (sequenceId, path, rest) \<Rightarrow> Some (to_stable_callback items n sequenceId path, rest)
             | None \<Rightarrow> None"
  let ?T = "lit @ concat (map (\<lambda>(w, p, lit). render_ref w p @ lit) refs)"
  from Cons.prems(2) r have br: "backward_ref items n w p" and lit: "\<not> includes_str lit ''{{''"
    and rest: "list_all (\<lambda>(w, p, lit). backward_ref items n w p \<and> \<not> includes_str lit ''{{'') refs"
    by simp_all
  from br have wf: "w \<noteq> []" "list_all is_word_char w" "CHR ''}'' \<notin> set p" "\<not> list_ex is_line_terminator p"
    by (simp_all add: backward_ref_def)
  have 1: "replace_all ?m (lit0 @ (render_ref w p @ ?T)) = lit0 @ replace_all ?m (render_ref w p @ ?T)"
    by (rule replace_all_literal[OF runtime_matcher_braces Cons.prems(1)]) (simp_all add: render_ref_def)
  have "?m (render_ref w p @ ?T) = Some (render_stable_ref items w p, ?T)"
    using match_runtime_ref_here[OF wf, of ?T] to_stable_callback_backward[OF br] by simp
  then have 2: "replace_all ?m (render_ref w p @ ?T) = render_stable_ref items w p @ replace_all ?m ?T"
    by (rule replace_all_match) (simp add: render_ref_def)
  have 3: "replace_all ?m ?T = lit @ concat (map (\<lambda>(w, p, lit). render_stable_ref items w p @ lit) refs)"
    using Cons.IH[OF lit rest] by (simp add: convertVariableToStepReference_def)
  show ?case using 1 2 3 r by (simp add: convertVariableToStepReference_def)
qed

lemma to_runtime_refs:
  assumes "\<not> includes_str lit0 ''{{''"
      and "list_all (\<lambda>(w, p, lit). backward_ref items n w p \<and> \<not> includes_str lit ''{{'') refs"
  shows "convertStepReferenceToVariable items
           (lit0 @ concat (map (\<lambda>(w, p, lit). render_stable_ref items w p @ lit) refs)) n
         = lit0 @ concat (map (\<lambda>(w, p, lit). render_ref w p @ lit) refs)"
  using assms
proof (induction refs arbitrary: lit0)
  case Nil
  let ?m = "\<lambda>s. case match_step_ref s of
               Some (stepIndex, path, rest) \<Rightarrow> Some (to_runtime_callback items n stepIndex path, rest)
             | None \<Rightarrow> None"
  have "replace_all ?m (lit0 @ []) = lit0 @ replace_all ?m []"
    by (rule replace_all_literal[OF step_matcher_braces Nil.prems(1)]) simp_all
  moreover have "replace_all ?m [] = []"
    by (rule replace_all_nil) (simp add: match_step_ref_def)
  ultimately show ?case by (simp add: convertStepReferenceToVariable_def)
next
  case (Cons r refs)
  obtain w p lit where r: "r = (w, p, lit)" by (cases r)
  let ?m = "\<lambda>s. case match_step_ref s of
               Some (stepIndex, path, rest) \<Rightarrow> Some (to_runtime_callback items n stepIndex path, rest)
             | None \<Rightarrow> None"
  let ?T = "lit @ concat (map (\<lambda>(w, p, lit). render_stable_ref items w p @ lit) refs)"
  let ?ds = "show_nat (position_of items w)"
  from Cons.prems(2) r have br: "backward_ref items n w p" and lit: "\<not> includes_str lit ''{{''"
    and rest: "list_all (\<lambda>(w, p, lit). backward_ref items n w p \<and> \<not> includes_str lit ''{{'') refs"
    by simp_all
  from br have wf: "CHR ''}'' \<notin> set p" "\<not> list_ex is_line_terminator p"
    by (simp_all add: backward_ref_def)
  have 1: "replace_all ?m (lit0 @ (render_stable_ref items w p @ ?T))
           = lit0 @ replace_all ?m (render_stable_ref items w p @ ?T)"
    by (rule replace_all_literal[OF step_matcher_braces Cons.prems(1)]) (simp_all add: render_stable_ref_def)
  have "match_step_ref (''{{step'' @ ?ds @ ''.'' @ p @ ''}}'' @ ?T) = Some (?ds, ''.'' @ p, ?T)"
    by (rule match_step_ref_here[OF show_nat_nonempty show_nat_digits wf])
  then have "?m (render_stable_ref items w p @ ?T) = Some (render_ref w p, ?T)"
    using to_runtime_callback_backward[OF br] by (simp add: render_stable_ref_def)
  then have 2: "replace_all ?m (render_stable_ref items w p @ ?T) = render_ref w p @ replace_all ?m ?T"
    by (rule replace_all_match) (simp add: render_stable_ref_def)
  have 3: "replace_all ?m ?T = lit @ concat (map (\<lambda>(w, p, lit). render_ref w p @ lit) refs)"
    using Cons.IH[OF lit rest] by (simp add: convertStepReferenceToVariable_def)
  show ?case using 1 2 3 r by (simp add: convertStepReferenceToVariable_def)
qed

text \<open>
  Claim C2. For a value owned by the step at position \<open>n\<close> whose references are all
  backward references, \<open>convertVariableToStepReference\<close> puts every reference into
  its stable form, and \<open>convertStepReferenceToVariable\<close> over the same sequence gives
  the original value back: every reference names the step it named before, and the text
  around the references is untouched.
\<close>

theorem stable_runtime_round_trip:
  assumes "backward_template items n tpl"
  shows "convertVariableToStepReference items (render_template tpl) n
           = render_stable items tpl
       \<and> convertStepReferenceToVariable items
           (convertVariableToStepReference items (render_template tpl) n) n
           = render_template tpl"
proof -
  obtain lit0 refs where tpl: "tpl = (lit0, refs)" by (cases tpl)
  with assms have a: "\<not> includes_str lit0 ''{{''"
    "list_all (\<lambda>(w, p, lit). backward_ref items n w p \<and> \<not> includes_str lit ''{{'') refs"
    by simp_all
  show ?thesis using to_stable_refs[OF a] to_runtime_refs[OF a] tpl by simp
qed

text \<open>
  The theorem for the path value \<open>/projects/{{seq_a1.data[0].gid}}/tasks\<close> of the
  second step of a two-step sequence.
\<close>

theorem stable_runtime_round_trip_witness:
  "backward_template
     [new_item ''seq_a1'' (catalog_endpoint ''GET'' ''/projects'' ''Get projects'') 0 empty_parameters (JObj []),
      new_item ''seq_b2'' (catalog_endpoint ''GET'' ''/projects/{project_gid}/tasks'' ''Get tasks'') 1 empty_parameters (JObj [])]
     1 (''/projects/'', [(''a1'', ''data[0].gid'', ''/tasks'')])
   \<and> convertVariableToStepReference
     [new_item ''seq_a1'' (catalog_endpoint ''GET'' ''/projects'' ''Get projects'') 0 empty_parameters (JObj []),
      new_item ''seq_b2'' (catalog_endpoint ''GET'' ''/projects/{project_gid}/tasks'' ''Get tasks'') 1 empty_parameters (JObj [])]
     ''/projects/{{seq_a1.data[0].gid}}/tasks'' 1
     = ''/projects/{{step0.data[0].gid}}/tasks''
   \<and> convertStepReferenceToVariable
     [new_item ''seq_a1'' (catalog_endpoint ''GET'' ''/projects'' ''Get projects'') 0 empty_parameters (JObj []),
      new_item ''seq_b2'' (catalog_endpoint ''GET'' ''/projects/{project_gid}/tasks'' ''Get tasks'') 1 empty_parameters (JObj [])]
     (convertVariableToStepReference
       [new_item ''seq_a1'' (catalog_endpoint ''GET'' ''/projects'' ''Get projects'') 0 empty_parameters (JObj []),
        new_item ''seq_b2'' (catalog_endpoint ''GET'' ''/projects/{project_gid}/tasks'' ''Get tasks'') 1 empty_parameters (JObj [])]
       ''/projects/{{seq_a1.data[0].gid}}/tasks'' 1) 1
     = ''/projects/{{seq_a1.data[0].gid}}/tasks''"
proof -
  let ?seq = "[new_item ''seq_a1'' (catalog_endpoint ''GET'' ''/projects'' ''Get projects'') 0 empty_parameters (JObj []),
       new_item ''seq_b2'' (catalog_endpoint ''GET'' ''/projects/{project_gid}/tasks'' ''Get tasks'') 1 empty_parameters (JObj [])]"
  let ?tpl = "(''/projects/'', [(''a1'', ''data[0].gid'', ''/tasks'')])"
  have bt: "backward_template ?seq 1 ?tpl"
    by (simp add: backward_ref_def is_word_char_def is_line_terminator_def new_item_def)
  have rt: "render_template ?tpl = ''/projects/{{seq_a1.data[0].gid}}/tasks''"
    by (simp add: render_ref_def)
  have st: "render_stable ?seq ?tpl = ''/projects/{{step0.data[0].gid}}/tasks''"
    by (simp add: render_stable_ref_def position_of_def new_item_def show_nat.simps digit_char_def)
  note th = stable_runtime_round_trip[OF bt, unfolded rt st]
  show ?thesis using bt th by blast
qed

section \<open>Properties of the executor\<close>

lemma find_index_distinct:
  assumes "distinct (map g xs)" "i < length xs"
  shows "find_index (\<lambda>x. g x = g (xs ! i)) xs = Some i"
  using assms
proof (induction xs arbitrary: i)
  case Nil then show ?case by simp
next
  case (Cons x xs)
  show ?case
  proof (cases i)
    case 0 then show ?thesis by simp
  next
    case (Suc i')
    with Cons.prems have "i' < length xs" "g (xs ! i') \<in> g ` set xs" "g x \<notin> g ` set xs" by auto
    then have "g x \<noteq> g (xs ! i')" by metis
    then show ?thesis using Cons.IH[of i'] Cons.prems Suc by simp
  qed
qed

text \<open>What one execution changes.\<close>

lemma run_item_shape:
  "\<exists>it'. apiSequence (run_item E f st j) = (apiSequence st)[j := it']
         \<and> item_id it' = item_id (apiSequence st ! j) \<and> executed it'"
  unfolding run_item_def
  by (auto simp: Let_def network_error_def split: sum.splits http_outcome.splits)

lemma run_item_token: "personalAccessToken (run_item E f st j) = personalAccessToken st"
  unfolding run_item_def
  by (simp add: Let_def split: sum.splits http_outcome.splits)

lemma run_item_calls: "length (calls (run_item E f st j)) \<le> length (calls st) + 1"
  unfolding run_item_def
  by (simp add: Let_def split: sum.splits http_outcome.splits)

lemma run_step_cases:
  "fst (run_step E f R st i) = st
   \<or> (\<exists>j line. announce E (apiSequence st ! i) = Inr line
        \<and> find_index (\<lambda>it. item_id it = item_id (apiSequence st ! i)) (apiSequence st) = Some j
        \<and> fst (run_step E f R st i) = run_item E f st j)"
  unfolding run_step_def executeSequenceItem_def
  by (auto simp: Let_def split: sum.splits option.splits)

lemma run_step_ids:
  "map item_id (apiSequence (fst (run_step E f R st i))) = map item_id (apiSequence st)"
proof -
  from run_step_cases[of E f R st i] show ?thesis
  proof
    assume "fst (run_step E f R st i) = st"
    then show ?thesis by simp
  next
    assume "\<exists>j line. announce E (apiSequence st ! i) = Inr line
        \<and> find_index (\<lambda>it. item_id it = item_id (apiSequence st ! i)) (apiSequence st) = Some j
        \<and> fst (run_step E f R st i) = run_item E f st j"
    then obtain j where fi: "find_index (\<lambda>it. item_id it = item_id (apiSequence st ! i))
                               (apiSequence st) = Some j"
      and r: "fst (run_step E f R st i) = run_item E f st j" by blast
    from find_index_Some[OF fi] have j: "j < length (apiSequence st)" by simp
    from run_item_shape[of E f st j] obtain it'
      where "apiSequence (run_item E f st j) = (apiSequence st)[j := it']"
        and "item_id it' = item_id (apiSequence st ! j)" by blast
    then show ?thesis unfolding r using j by (simp add: map_update list_update_same_conv)
  qed
qed

lemma run_step_calls: "length (calls (fst (run_step E f R st i))) \<le> length (calls st) + 1"
  using run_step_cases[of E f R st i] run_item_calls[of E f st] by auto

lemma run_step_at:
  assumes "distinct (map item_id (apiSequence st))" "i < length (apiSequence st)"
  shows "announce E (apiSequence st ! i) = Inr line
         \<Longrightarrow> executed (apiSequence (fst (run_step E f R st i)) ! i)"
    and "j \<noteq> i \<Longrightarrow> apiSequence (fst (run_step E f R st i)) ! j = apiSequence st ! j"
proof -
  have fi: "find_index (\<lambda>it. item_id it = item_id (apiSequence st ! i)) (apiSequence st) = Some i"
    by (rule find_index_distinct[OF assms])
  from run_item_shape[of E f st i] obtain it'
    where s: "apiSequence (run_item E f st i) = (apiSequence st)[i := it']"
      and e: "executed it'" by blast
  show "announce E (apiSequence st ! i) = Inr line
        \<Longrightarrow> executed (apiSequence (fst (run_step E f R st i)) ! i)"
    using s e assms(2) fi by (simp add: run_step_def executeSequenceItem_def Let_def)
  show "j \<noteq> i \<Longrightarrow> apiSequence (fst (run_step E f R st i)) ! j = apiSequence st ! j"
    using s fi by (cases "announce E (apiSequence st ! i)")
      (simp_all add: run_step_def executeSequenceItem_def Let_def)
qed

text \<open>What a run up to a position has done.\<close>

lemma run_steps_ids:
  "map item_id (apiSequence (run_steps E f R st j)) = map item_id (apiSequence st)"
  by (induction j) (simp_all add: run_step_ids)

lemma run_steps_length: "length (apiSequence (run_steps E f R st j)) = length (apiSequence st)"
  using run_steps_ids[of E f R st j] by (metis length_map)

lemma run_steps_calls: "length (calls (run_steps E f R st j)) \<le> length (calls st) + j"
proof (induction j)
  case 0 then show ?case by simp
next
  case (Suc j)
  have "length (calls (run_steps E f R st (Suc j))) \<le> length (calls (run_steps E f R st j)) + 1"
    using run_step_calls[of E f R "run_steps E f R st j" j] by simp
  with Suc show ?case by simp
qed

lemma run_steps_later:
  assumes "distinct (map item_id (apiSequence st))" "j \<le> length (apiSequence st)" "j \<le> i"
  shows "apiSequence (run_steps E f R st j) ! i = apiSequence st ! i"
  using assms(2,3)
proof (induction j)
  case 0 then show ?case by simp
next
  case (Suc j)
  let ?s = "run_steps E f R st j"
  have d: "distinct (map item_id (apiSequence ?s))" using assms(1) by (simp add: run_steps_ids)
  have l: "j < length (apiSequence ?s)" using Suc.prems by (simp add: run_steps_length)
  have "i \<noteq> j" using Suc.prems by simp
  from run_step_at(2)[OF d l this, of E f R] Suc show ?case by simp
qed

lemma not_thrown_announced:
  assumes "\<not> step_thrown E f R st j"
  shows "\<exists>line. announce E (apiSequence (run_steps E f R st j) ! j) = Inr line"
  using assms unfolding step_thrown_def step_outcome_def run_step_def
  by (cases "announce E (apiSequence (run_steps E f R st j) ! j)") simp_all

lemma run_steps_executed:
  assumes "distinct (map item_id (apiSequence st))" "j \<le> length (apiSequence st)"
      and "\<And>i. i < j \<Longrightarrow> \<exists>line. announce E (apiSequence (run_steps E f R st i) ! i) = Inr line"
      and "i < j"
  shows "executed (apiSequence (run_steps E f R st j) ! i)"
  using assms(2,3,4)
proof (induction j)
  case 0 then show ?case by simp
next
  case (Suc j)
  let ?s = "run_steps E f R st j"
  have d: "distinct (map item_id (apiSequence ?s))" using assms(1) by (simp add: run_steps_ids)
  have l: "j < length (apiSequence ?s)" using Suc.prems by (simp add: run_steps_length)
  show ?case
  proof (cases "i = j")
    case True
    from Suc.prems(2)[of j] obtain line where "announce E (apiSequence ?s ! j) = Inr line" by auto
    from run_step_at(1)[OF d l this, of f R] show ?thesis using True by simp
  next
    case False
    with Suc.prems have "i < j" by simp
    then have "executed (apiSequence ?s ! i)" using Suc by simp
    then show ?thesis using run_step_at(2)[OF d l False, of E f R] by simp
  qed
qed

text \<open>The loop stops at the first round that an exception ends or that leaves an error.\<close>

lemma execute_from_stops:
  assumes "k < length (apiSequence st)" "i \<le> k"
      and "\<forall>j. i \<le> j \<and> j < k \<longrightarrow> \<not> step_thrown E f R st j \<and> \<not> step_failed E f R st j"
      and "step_thrown E f R st k \<or> step_failed E f R st k"
  shows "execute_from E f R (run_steps E f R st i) i = run_steps E f R st (Suc k)"
  using assms(2,3)
proof (induction "k - i" arbitrary: i)
  case 0
  then have "i = k" by simp
  then show ?case using assms(1,4)
    by (subst execute_from.simps)
       (auto simp add: run_steps_length step_thrown_def step_failed_def step_outcome_def
          split: prod.splits)
next
  case (Suc d)
  then have ik: "i < k" by simp
  with Suc.prems(2) have ne: "\<not> step_thrown E f R st i" "\<not> step_failed E f R st i" by simp_all
  have "execute_from E f R (run_steps E f R st (Suc i)) (Suc i) = run_steps E f R st (Suc k)"
    using Suc.hyps(1)[of "Suc i"] Suc.hyps(2) Suc.prems ik by simp
  then show ?case using ne ik assms(1)
    by (subst execute_from.simps)
       (auto simp add: run_steps_length step_thrown_def step_failed_def step_outcome_def
          split: prod.splits)
qed

text \<open>
  Claim C3. With a token and distinct step ids, take a run in which no round before
  position \<open>k\<close> is ended by an exception or leaves its step with an error, and in which
  the step at \<open>k\<close>, whose method and path have a text for the log line of its round, ends
  with an error. The run is the rounds for the steps \<open>0\<close> to \<open>k\<close> in this order and
  nothing else: these steps are marked executed, every later step is as it was before
  the run, and at most \<open>k + 1\<close> requests were sent.
\<close>

theorem run_all_halts_at_first_failure:
  assumes "personalAccessToken st \<noteq> []" "distinct (map item_id (apiSequence st))"
      and "k < length (apiSequence st)"
      and "\<forall>j < k. \<not> step_thrown E f R st j \<and> \<not> step_failed E f R st j"
      and "step_failed E f R st k"
      and "announce E (apiSequence st ! k) = Inr line"
  shows "executeSequence E f R st = run_steps E f R st (Suc k)
       \<and> (\<forall>i \<le> k. executed (apiSequence (executeSequence E f R st) ! i))
       \<and> (\<forall>i > k. apiSequence (executeSequence E f R st) ! i = apiSequence st ! i)
       \<and> length (calls (executeSequence E f R st)) \<le> length (calls st) + Suc k"
proof -
  have ne: "apiSequence st \<noteq> []" using assms(3) by auto
  have "execute_from E f R (run_steps E f R st 0) 0 = run_steps E f R st (Suc k)"
    by (rule execute_from_stops[OF assms(3)]) (use assms(4,5) in simp_all)
  then have eq: "executeSequence E f R st = run_steps E f R st (Suc k)"
    using ne assms(1) by (simp add: executeSequence_def)
  have sk: "Suc k \<le> length (apiSequence st)" "k \<le> length (apiSequence st)"
    using assms(3) by simp_all
  have an: "\<exists>line. announce E (apiSequence (run_steps E f R st i) ! i) = Inr line"
    if "i < Suc k" for i
  proof (cases "i = k")
    case True
    then show ?thesis using run_steps_later[OF assms(2) sk(2), of k E f R] assms(6) by simp
  next
    case False
    with that have "i < k" by simp
    then show ?thesis using assms(4) not_thrown_announced by blast
  qed
  have "\<forall>i \<le> k. executed (apiSequence (run_steps E f R st (Suc k)) ! i)"
    using run_steps_executed[OF assms(2) sk(1), of E f R] an by (simp add: less_Suc_eq_le)
  moreover have "\<forall>i > k. apiSequence (run_steps E f R st (Suc k)) ! i = apiSequence st ! i"
    using run_steps_later[OF assms(2) sk(1), of _ E f R] by (simp add: Suc_le_eq)
  ultimately show ?thesis using eq run_steps_calls[of E f R st "Suc k"] by simp
qed

text \<open>
  The run of \<open>[A ok, B fails, C ok]\<close>: \<open>A\<close> and \<open>B\<close> are executed, \<open>C\<close> is not, and two
  requests were sent.
\<close>

theorem run_all_halts_at_first_failure_witness:
  "personalAccessToken demo_session \<noteq> []
   \<and> distinct (map item_id (apiSequence demo_session))
   \<and> 1 < length (apiSequence demo_session)
   \<and> \<not> step_thrown bare_engine demo_fetch quiet_page demo_session 0
   \<and> \<not> step_failed bare_engine demo_fetch quiet_page demo_session 0
   \<and> step_failed bare_engine demo_fetch quiet_page demo_session 1
   \<and> announce bare_engine (apiSequence demo_session ! 1) = Inr ''GET /projects/{project_gid}/tasks''
   \<and> executed (apiSequence (executeSequence bare_engine demo_fetch quiet_page demo_session) ! 0)
   \<and> executed (apiSequence (executeSequence bare_engine demo_fetch quiet_page demo_session) ! 1)
   \<and> \<not> executed (apiSequence (executeSequence bare_engine demo_fetch quiet_page demo_session) ! 2)
   \<and> length (calls (executeSequence bare_engine demo_fetch quiet_page demo_session)) \<le> 2"
proof -
  let ?run = "executeSequence bare_engine demo_fetch quiet_page demo_session"
  have h1: "personalAccessToken demo_session \<noteq> []" by (simp add: demo_session_def)
  have h2: "distinct (map item_id (apiSequence demo_session))"
    by (simp add: demo_session_def demo_sequence_def new_item_def)
  have h3: "1 < length (apiSequence demo_session)"
    by (simp add: demo_session_def demo_sequence_def)
  have h4a: "\<not> step_thrown bare_engine demo_fetch quiet_page demo_session 0" by code_simp
  have h4b: "\<not> step_failed bare_engine demo_fetch quiet_page demo_session 0" by code_simp
  have h5: "step_failed bare_engine demo_fetch quiet_page demo_session 1" by code_simp
  have h6: "announce bare_engine (apiSequence demo_session ! 1)
            = Inr ''GET /projects/{project_gid}/tasks''" by code_simp
  have h4: "\<forall>j < 1. \<not> step_thrown bare_engine demo_fetch quiet_page demo_session j
                     \<and> \<not> step_failed bare_engine demo_fetch quiet_page demo_session j"
    using h4a h4b by simp
  have c: "\<not> executed (apiSequence demo_session ! 2)"
    by (simp add: demo_session_def demo_sequence_def new_item_def)
  note th = run_all_halts_at_first_failure[OF h1 h2 h3 h4 h5 h6]
  from th have e: "\<forall>i \<le> 1. executed (apiSequence ?run ! i)"
    by blast
  from th have u: "\<forall>i > 1. apiSequence ?run ! i = apiSequence demo_session ! i"
    by blast
  from th have l: "length (calls ?run) \<le> length (calls demo_session) + Suc 1"
    by blast
  have e0: "executed (apiSequence ?run ! 0)"
    using e[rule_format, of 0] by simp
  have e1: "executed (apiSequence ?run ! 1)"
    using e[rule_format, of 1] by simp
  have u2: "apiSequence ?run ! 2 = apiSequence demo_session ! 2"
    using u[rule_format, of 2] by simp
  have l2: "length (calls ?run) \<le> 2"
    using l by (simp add: demo_session_def)
  show ?thesis using h1 h2 h3 h4a h4b h5 h6 e0 e1 c l2 unfolding u2 by blast
qed

subsection \<open>Empty path parameters\<close>

lemma substitute_empty_param:
  assumes "read_prop (parameters it) ''path'' = Inr pathObj"
      and "get_prop E pathObj param = Inr (JStr [])"
      and "get_prop E (variableMappings it) param = Inr m" "\<not> truthy m"
  shows "substitute_path_param E sr it url param = Inr url"
  using assms by (simp add: substitute_path_param_def resolve_inline_def)

lemma fold_err_skip:
  assumes "\<And>acc. g acc x = Inr acc"
  shows "fold_err g acc xs = fold_err g acc (filter (\<lambda>y. y \<noteq> x) xs)"
proof (induction xs arbitrary: acc)
  case Nil then show ?case by simp
next
  case (Cons y ys)
  show ?case
  proof (cases "y = x")
    case True
    then show ?thesis using assms Cons by simp
  next
    case False
    then show ?thesis using Cons by (simp add: bind_err_def split: sum.splits)
  qed
qed

lemma query_ends_with_pretty:
  "buildQueryParameters E sr it = Inr q \<Longrightarrow> \<exists>ps. q = ps @ [(''opt_pretty'', ''true'')]"
  unfolding buildQueryParameters_def bind_err_def
  by (auto split: sum.splits if_splits)

lemma build_request_reset:
  "build_request E st (it\<lparr>executed := a, result := b, error := c\<rparr>) = build_request E st it"
proof -
  have "substitute_path_param E sr (it\<lparr>executed := a, result := b, error := c\<rparr>)
        = substitute_path_param E sr it" for sr
    by (intro ext) (simp add: substitute_path_param_def)
  then show ?thesis
    by (simp add: build_request_def buildQueryParameters_def)
qed

text \<open>
  Claim C5, as amended. Take a step with a declared path parameter whose literal value
  is empty and which has no variable mapping (an empty value holds no inline
  placeholder). The build does not fail for it: the round of the substitution for the
  parameter leaves the url as it is (\<open>if (value)\<close>), so that the url is built from the
  other declared parameters alone, with the text \<open>{param}\<close> of the template still in it.
  Whenever these and the query parameters build, the request is built and sent to that
  url, and the step ends executed; it ends without an error, with the decoded response
  as its result, when the response is a \<open>2xx\<close>.
\<close>

theorem empty_path_parameter_stays_in_url:
  assumes "j < length (apiSequence st)" "apiSequence st ! j = it"
      and "ep_path (endpoint it) = JStr p"
      and "read_prop (parameters it) ''path'' = Inr pathObj"
      and "get_prop E pathObj param = Inr (JStr [])"
      and "get_prop E (variableMappings it) param = Inr m" "\<not> truthy m"
  shows "substitute_path_param E (sequenceResults st) it url param = Inr url
       \<and> fold_err (substitute_path_param E (sequenceResults st) it) url names
           = fold_err (substitute_path_param E (sequenceResults st) it) url
               (filter (\<lambda>x. x \<noteq> param) names)
       \<and> (fold_err (substitute_path_param E (sequenceResults st) it) (baseUrl st @ p)
             (filter (\<lambda>x. x \<noteq> param) (path_param_names p)) = Inr built
           \<and> buildQueryParameters E (sequenceResults st) it = Inr q
          \<longrightarrow> (\<exists>req. build_request E st it = Inr req
                 \<and> req_url req = built @ ''?'' @ search_params_to_string q
                 \<and> calls (run_item E f st j) = calls st @ [req]
                 \<and> executed (apiSequence (run_item E f st j) ! j)
                 \<and> (\<forall>status responseData.
                       f (length (calls st)) req = Response status responseData
                       \<and> 200 \<le> status \<and> status \<le> 299
                       \<longrightarrow> error (apiSequence (run_item E f st j) ! j) = None
                           \<and> result (apiSequence (run_item E f st j) ! j) = responseData)))"
proof (intro conjI impI)
  let ?sr = "sequenceResults st"
  show s: "substitute_path_param E ?sr it url param = Inr url" for url
    by (rule substitute_empty_param[OF assms(4-7)])
  show "fold_err (substitute_path_param E ?sr it) url names
          = fold_err (substitute_path_param E ?sr it) url (filter (\<lambda>x. x \<noteq> param) names)"
    by (rule fold_err_skip) (rule s)
next
  let ?sr = "sequenceResults st"
  let ?reset = "(apiSequence st ! j)\<lparr>executed := False, result := JNull, error := None\<rparr>"
  assume a: "fold_err (substitute_path_param E ?sr it) (baseUrl st @ p)
               (filter (\<lambda>x. x \<noteq> param) (path_param_names p)) = Inr built
             \<and> buildQueryParameters E ?sr it = Inr q"
  have s: "substitute_path_param E ?sr it u param = Inr u" for u
    by (rule substitute_empty_param[OF assms(4-7)])
  have fo: "fold_err (substitute_path_param E ?sr it) (baseUrl st @ p) (path_param_names p)
            = Inr built"
    using fold_err_skip[of "substitute_path_param E ?sr it" param "baseUrl st @ p"
        "path_param_names p"] s a by simp
  from a query_ends_with_pretty obtain ps where q: "q = ps @ [(''opt_pretty'', ''true'')]"
    by blast
  have nq: "search_params_to_string q \<noteq> []" unfolding q by (rule search_params_nonempty)
  have np: "\<not> nullish (parameters it)"
    using assms(4) by (auto simp add: read_prop_def split: if_splits)
  define req where "req =
     \<lparr>req_method = ep_method (endpoint it),
      req_url = built @ ''?'' @ search_params_to_string q,
      req_headers =
        (if truthy (own_prop (parameters it) ''body'')
            \<and> ep_method (endpoint it) \<in> {JStr ''POST'', JStr ''PUT'', JStr ''PATCH''}
         then [(''Authorization'', ''Bearer '' @ personalAccessToken st),
               (''Accept'', ''application/json''), (''Content-Type'', ''application/json'')]
         else [(''Authorization'', ''Bearer '' @ personalAccessToken st),
               (''Accept'', ''application/json'')]),
      req_body =
        (if truthy (own_prop (parameters it) ''body'')
            \<and> ep_method (endpoint it) \<in> {JStr ''POST'', JStr ''PUT'', JStr ''PATCH''}
         then own_prop (parameters it) ''body'' else JUndefined)\<rparr>"
  have b: "build_request E st it = Inr req"
    unfolding build_request_def assms(3) extractPathParameters_def jsval.case to_string.simps
      bind_err_Inr fo req_def
    using a np nq by (simp add: read_prop_def Let_def)
  have br: "build_request E st ?reset = Inr req"
    using b build_request_reset[where it = it and a = False and b = JNull and c = None and E = E and st = st] assms(2) by simp
  have u: "req_url req = built @ ''?'' @ search_params_to_string q" by (simp add: req_def)
  have c: "calls (run_item E f st j) = calls st @ [req]"
    unfolding run_item_def Let_def br
    by (simp split: http_outcome.splits sum.splits)
  have e: "executed (apiSequence (run_item E f st j) ! j)"
    using run_item_shape[of E f st j] assms(1) by auto
  have ok: "error (apiSequence (run_item E f st j) ! j) = None
            \<and> result (apiSequence (run_item E f st j) ! j) = responseData"
    if "f (length (calls st)) req = Response status responseData \<and> 200 \<le> status \<and> status \<le> 299"
    for status responseData
    unfolding run_item_def Let_def br
    using that assms(1) by simp
  show "\<exists>req. build_request E st it = Inr req
          \<and> req_url req = built @ ''?'' @ search_params_to_string q
          \<and> calls (run_item E f st j) = calls st @ [req]
          \<and> executed (apiSequence (run_item E f st j) ! j)
          \<and> (\<forall>status responseData.
                f (length (calls st)) req = Response status responseData
                \<and> 200 \<le> status \<and> status \<le> 299
                \<longrightarrow> error (apiSequence (run_item E f st j) ! j) = None
                    \<and> result (apiSequence (run_item E f st j) ! j) = responseData)"
    using b u c e ok by blast
qed


text \<open>
  The theorem for the step \<open>GET /projects/{project_gid}/tasks\<close> with an empty
  \<open>project_gid\<close> and an API that answers \<open>200\<close>.
\<close>

theorem empty_path_parameter_stays_in_url_witness:
  "0 < length (apiSequence empty_param_session)
   \<and> apiSequence empty_param_session ! 0 = empty_param_item
   \<and> ep_path (endpoint empty_param_item) = JStr ''/projects/{project_gid}/tasks''
   \<and> read_prop (parameters empty_param_item) ''path'' = Inr (JObj [(''project_gid'', JStr [])])
   \<and> get_prop bare_engine (JObj [(''project_gid'', JStr [])]) ''project_gid'' = Inr (JStr [])
   \<and> get_prop bare_engine (variableMappings empty_param_item) ''project_gid'' = Inr JUndefined
   \<and> \<not> truthy JUndefined
   \<and> fold_err (substitute_path_param bare_engine (sequenceResults empty_param_session)
                 empty_param_item)
        (baseUrl empty_param_session @ ''/projects/{project_gid}/tasks'')
        (filter (\<lambda>x. x \<noteq> ''project_gid'') (path_param_names ''/projects/{project_gid}/tasks''))
       = Inr ''https://app.asana.com/api/1.0/projects/{project_gid}/tasks''
   \<and> buildQueryParameters bare_engine (sequenceResults empty_param_session) empty_param_item
       = Inr [(''opt_pretty'', ''true'')]
   \<and> (\<forall>req. demo_fetch (length (calls empty_param_session)) req
              = Response 200 (JObj [(''data'', JArr [JObj [(''gid'', JStr ''12'')]])]))
   \<and> (\<exists>req. build_request bare_engine empty_param_session empty_param_item = Inr req
          \<and> req_url req
              = ''https://app.asana.com/api/1.0/projects/{project_gid}/tasks?opt_pretty=true''
          \<and> calls (run_item bare_engine demo_fetch empty_param_session 0)
              = calls empty_param_session @ [req])
   \<and> executed (apiSequence (run_item bare_engine demo_fetch empty_param_session 0) ! 0)
   \<and> error (apiSequence (run_item bare_engine demo_fetch empty_param_session 0) ! 0) = None
   \<and> result (apiSequence (run_item bare_engine demo_fetch empty_param_session 0) ! 0)
       = JObj [(''data'', JArr [JObj [(''gid'', JStr ''12'')]])]"
proof -
  let ?S = empty_param_session
  let ?p = "''/projects/{project_gid}/tasks''"
  let ?po = "JObj [(''project_gid'', JStr [])]"
  let ?built = "''https://app.asana.com/api/1.0/projects/{project_gid}/tasks''"
  let ?q = "[(''opt_pretty'', ''true'')]"
  let ?d = "JObj [(''data'', JArr [JObj [(''gid'', JStr ''12'')]])]"
  have h1: "0 < length (apiSequence ?S)" by code_simp
  have h2: "apiSequence ?S ! 0 = empty_param_item" by code_simp
  have h3: "ep_path (endpoint empty_param_item) = JStr ?p" by code_simp
  have h4: "read_prop (parameters empty_param_item) ''path'' = Inr ?po" by code_simp
  have h5: "get_prop bare_engine ?po ''project_gid'' = Inr (JStr [])" by code_simp
  have h6: "get_prop bare_engine (variableMappings empty_param_item) ''project_gid''
            = Inr JUndefined" by code_simp
  have h7: "\<not> truthy JUndefined" by simp
  have h8: "fold_err (substitute_path_param bare_engine (sequenceResults ?S) empty_param_item)
              (baseUrl ?S @ ?p) (filter (\<lambda>x. x \<noteq> ''project_gid'') (path_param_names ?p))
            = Inr ?built" by code_simp
  have h9: "buildQueryParameters bare_engine (sequenceResults ?S) empty_param_item = Inr ?q"
    by code_simp
  have h10: "\<forall>req. demo_fetch (length (calls ?S)) req = Response 200 ?d"
  proof
    fix req
    have "length (calls ?S) = 0" by code_simp
    then show "demo_fetch (length (calls ?S)) req = Response 200 ?d"
      by (simp add: demo_fetch_def)
  qed
  have qs: "?built @ ''?'' @ search_params_to_string ?q
            = ''https://app.asana.com/api/1.0/projects/{project_gid}/tasks?opt_pretty=true''"
    by code_simp
  note th = empty_path_parameter_stays_in_url[OF h1 h2 h3 h4 h5 h6 h7,
      where f = demo_fetch and built = ?built and q = ?q]
  from th[THEN conjunct2, THEN conjunct2, rule_format, OF conjI[OF h8 h9]]
  obtain req where b: "build_request bare_engine ?S empty_param_item = Inr req"
    and u: "req_url req = ?built @ ''?'' @ search_params_to_string ?q"
    and c: "calls (run_item bare_engine demo_fetch ?S 0) = calls ?S @ [req]"
    and e: "executed (apiSequence (run_item bare_engine demo_fetch ?S 0) ! 0)"
    and ok: "\<And>status responseData.
               demo_fetch (length (calls ?S)) req = Response status responseData
               \<and> 200 \<le> status \<and> status \<le> 299
               \<Longrightarrow> error (apiSequence (run_item bare_engine demo_fetch ?S 0) ! 0) = None
                   \<and> result (apiSequence (run_item bare_engine demo_fetch ?S 0) ! 0)
                       = responseData"
    by blast
  have r: "error (apiSequence (run_item bare_engine demo_fetch ?S 0) ! 0) = None
           \<and> result (apiSequence (run_item bare_engine demo_fetch ?S 0) ! 0) = ?d"
    by (rule ok[of 200 ?d]) (use h10 in simp)
  have x: "\<exists>req. build_request bare_engine ?S empty_param_item = Inr req
          \<and> req_url req
              = ''https://app.asana.com/api/1.0/projects/{project_gid}/tasks?opt_pretty=true''
          \<and> calls (run_item bare_engine demo_fetch ?S 0) = calls ?S @ [req]"
    using b u c unfolding qs by blast
  show ?thesis using h1 h2 h3 h4 h5 h6 h7 h8 h9 h10 x e r by blast
qed

text \<open>
  The claim as stated: the build of that step does not fail. It gives the request for
  the url with \<open>{project_gid}\<close> still in it, and with a \<open>200\<close> answer the step ends
  executed and without an error.
\<close>

theorem empty_path_parameter_counterexample:
  "build_request bare_engine empty_param_session empty_param_item
     = Inr \<lparr>req_method = JStr ''GET'',
            req_url = ''https://app.asana.com/api/1.0/projects/{project_gid}/tasks?opt_pretty=true'',
            req_headers = [(''Authorization'', ''Bearer token''), (''Accept'', ''application/json'')],
            req_body = JUndefined\<rparr>
   \<and> error (apiSequence (fst (executeSequenceItem bare_engine demo_fetch quiet_page
               empty_param_session ''seq_b'')) ! 0) = None
   \<and> executed (apiSequence (fst (executeSequenceItem bare_engine demo_fetch quiet_page
               empty_param_session ''seq_b'')) ! 0)
   \<and> snd (executeSequenceItem bare_engine demo_fetch quiet_page empty_param_session ''seq_b'')
       = None"
  by code_simp

section \<open>Properties of the import\<close>

text \<open>
  Claim C8 on the code, for a file whose second entry has a method and no path. The
  entry matches no endpoint of the catalog and throws nothing in the loop, so it is not
  skipped: it is loaded as an imported placeholder whose endpoint has no path, and both
  entries are counted as loaded. The new sequence is in place when the panel is then
  rendered, and rendering the placeholder throws (\<open>extractPathParameters(undefined)\<close>),
  whatever the engine and the page: the outer \<open>catch\<close> reports that the import failed,
  and no count is shown.
\<close>

theorem import_of_pathless_entry_fails:
  "\<forall>E R. snd (loadSequenceFromData E R demo_new_id True empty_session pathless_file)
            = ImportFailed type_error
         \<and> map item_id (apiSequence
              (fst (loadSequenceFromData E R demo_new_id True empty_session pathless_file)))
            = [''seq_0'', ''seq_1'']
         \<and> map isImported (apiSequence
              (fst (loadSequenceFromData E R demo_new_id True empty_session pathless_file)))
            = [False, True]
         \<and> ep_path (endpoint (apiSequence
              (fst (loadSequenceFromData E R demo_new_id True empty_session pathless_file)) ! 1))
            = JUndefined
         \<and> import_entries (endpoints empty_session) demo_new_id ([], 0, 0) 0
              [JObj [(''method'', JStr ''GET''), (''path'', JStr ''/projects'')],
               JObj [(''method'', JStr ''GET'')]]
            = (apiSequence
                 (fst (loadSequenceFromData E R demo_new_id True empty_session pathless_file)),
               2, 0)"
proof (intro allI)
  fix E R
  show "snd (loadSequenceFromData E R demo_new_id True empty_session pathless_file)
            = ImportFailed type_error
         \<and> map item_id (apiSequence
              (fst (loadSequenceFromData E R demo_new_id True empty_session pathless_file)))
            = [''seq_0'', ''seq_1'']
         \<and> map isImported (apiSequence
              (fst (loadSequenceFromData E R demo_new_id True empty_session pathless_file)))
            = [False, True]
         \<and> ep_path (endpoint (apiSequence
              (fst (loadSequenceFromData E R demo_new_id True empty_session pathless_file)) ! 1))
            = JUndefined
         \<and> import_entries (endpoints empty_session) demo_new_id ([], 0, 0) 0
              [JObj [(''method'', JStr ''GET''), (''path'', JStr ''/projects'')],
               JObj [(''method'', JStr ''GET'')]]
            = (apiSequence
                 (fst (loadSequenceFromData E R demo_new_id True empty_session pathless_file)),
               2, 0)"
    by code_simp
qed

section \<open>Iteration\<close>

text \<open>
  Claim C6 on the code: the imported step carries no iteration configuration, and the
  run sends one request per step. The second step's placeholder \<open>{{item.gid}}\<close>
  resolves to \<open>null\<close>, its request keeps \<open>{project_gid}\<close> in the url, and its result is
  the decoded response of that one call: there is no summary with \<open>totalIterations\<close>.
\<close>

theorem iteration_is_one_request:
  "length (calls (executeSequence bare_engine iteration_fetch quiet_page
             (fst (loadSequenceFromData bare_engine quiet_page demo_new_id True empty_session
                     iteration_file)))) = 3
   \<and> req_url (calls (executeSequence bare_engine iteration_fetch quiet_page
             (fst (loadSequenceFromData bare_engine quiet_page demo_new_id True empty_session
                     iteration_file))) ! 1)
       = ''https://app.asana.com/api/1.0/projects/{project_gid}/tasks?opt_pretty=true''
   \<and> result (apiSequence (executeSequence bare_engine iteration_fetch quiet_page
             (fst (loadSequenceFromData bare_engine quiet_page demo_new_id True empty_session
                     iteration_file))) ! 1)
       = JObj [(''data'', JArr [JObj [(''gid'', JStr ''t1'')], JObj [(''gid'', JStr ''t2'')]])]
   \<and> get_prop bare_engine
        (result (apiSequence (executeSequence bare_engine iteration_fetch quiet_page
             (fst (loadSequenceFromData bare_engine quiet_page demo_new_id True empty_session
                     iteration_file))) ! 1))
        ''totalIterations'' = Inr JUndefined"
  by code_simp

end
